theory Spec2Isabelle
  imports Complex_Main "HOL-Library.Word" "HOL-Library.Signed_Division" "HOL-Library.Log_Nat"
begin

unbundle bit_operations_syntax

section \<open>The view controller of inspectrum (plotview.cpp)\<close>

text \<open>
  The development embeds \<^verbatim>\<open>PlotView\<close>, the scroll area that owns the plots, the view
  range, the zoom parameters and the selection, as pure functions on a record of its state.

  \<^item> A C++ \<^verbatim>\<open>int\<close> is a \<open>32 word\<close> and an \<^verbatim>\<open>off_t\<close> is a \<open>64 word\<close>, both read with
    \<open>sint\<close>. Addition, subtraction and multiplication wrap around; the widening of an
    \<^verbatim>\<open>int\<close> operand to \<^verbatim>\<open>off_t\<close> is \<open>scast\<close>, and the narrowing of an \<^verbatim>\<open>off_t\<close> to an
    \<^verbatim>\<open>int\<close> argument keeps the low 32 bits.
  \<^item> The integer division of C++ truncates towards zero. A division by zero, and the
    division of the least value by \<open>-1\<close>, do not return: they are the errors of the model.
  \<^item> A C++ \<^verbatim>\<open>float\<close> is an IEEE 754 single-precision number; conversions to it and its
    division round to the nearest number, ties to even.
  \<^item> A scroll bar that changes its value emits \<^verbatim>\<open>valueChanged\<close>, and the scroll area
    delivers the signal to \<^verbatim>\<open>scrollContentsBy\<close> before the call on the scroll bar
    returns. The slot runs \<^verbatim>\<open>updateView()\<close>, which writes to the scroll bars again:
    \<^verbatim>\<open>updateView\<close> is recursive, and a run that does not return has the value \<open>None\<close>.
    The signals that \<^verbatim>\<open>PlotView\<close> emits itself are recorded in the state.
  \<^item> The sizes of the scroll area and of its viewport are read from the state and no
    operation changes them; a scroll bar that Qt shows or hides does not resize the
    viewport in the model.
\<close>

type_synonym cint = "32 word"
type_synonym off_t = "64 word"

datatype error = DivisionByZero | DivisionOverflow

subsection \<open>Integer arithmetic of C++\<close>

definition widen :: "cint \<Rightarrow> off_t" where
  "widen x = scast x"

definition narrow :: "off_t \<Rightarrow> cint" where
  "narrow x = ucast x"

text \<open>Truncating division, for a divisor that is a non-zero literal of the source.\<close>

definition cdiv :: "'a::len word \<Rightarrow> 'a word \<Rightarrow> 'a word" where
  "cdiv a b = word_of_int (sint a sdiv sint b)"

text \<open>Truncating division by a divisor the program computes.\<close>

definition checked_div :: "'a::len word \<Rightarrow> 'a word \<Rightarrow> error + 'a word" where
  "checked_div a b =
     (if b = 0 then Inl DivisionByZero
      else if sint a = - (2 ^ (LENGTH('a) - 1)) \<and> b = - 1 then Inl DivisionOverflow
      else Inr (cdiv a b))"

definition smax :: "'a::len word \<Rightarrow> 'a word \<Rightarrow> 'a word" where
  "smax a b = (if a <s b then b else a)"

definition smin :: "'a::len word \<Rightarrow> 'a word \<Rightarrow> 'a word" where
  "smin a b = (if b <s a then b else a)"

definition qAbs :: "cint \<Rightarrow> cint" where
  "qAbs x = (if 0 \<le>s x then x else - x)"

subsection \<open>Single-precision numbers\<close>

text \<open>
  A \<^verbatim>\<open>float\<close> is a finite number, a zero with a sign, an infinity or a NaN. The finite
  numbers are the multiples of \<open>2 ^ (e - 23)\<close> below \<open>2 ^ (e + 1)\<close> in magnitude, for an
  exponent \<open>e\<close> from \<open>- 126\<close> to 127. \<open>float_exponent x\<close> is the exponent of the binade of a
  positive \<open>x\<close>, the integer part of its binary logarithm; \<open>float_round\<close> is the
  conversion of a number to \<^verbatim>\<open>float\<close>, and \<open>float_div\<close> the division of two.
\<close>

datatype cfloat = Finite real | NegZero | PlusInfinity | MinusInfinity | NaN

definition float_exponent :: "real \<Rightarrow> int" where
  "float_exponent x = (if 1 \<le> x then bitlen \<lfloor>x\<rfloor> - 1 else - bitlen (\<lceil>1 / x\<rceil> - 1))"

definition round_even :: "real \<Rightarrow> int" where
  "round_even x =
     (let n = \<lfloor>x\<rfloor>; d = x - of_int n
      in if d < 1 / 2 then n else if 1 / 2 < d then n + 1 else if even n then n else n + 1)"

definition float_round :: "real \<Rightarrow> cfloat" where
  "float_round x =
     (if x = 0 then Finite 0
      else let e = max (float_exponent \<bar>x\<bar>) (- 126);
               ulp = 2 powi (e - 23);
               m = of_int (round_even (\<bar>x\<bar> / ulp)) * ulp
           in if 2 ^ 128 \<le> m then (if x < 0 then MinusInfinity else PlusInfinity)
              else if m = 0 then (if x < 0 then NegZero else Finite 0)
              else Finite (if x < 0 then - m else m))"

definition float_negative :: "cfloat \<Rightarrow> bool" where
  "float_negative a =
     (case a of Finite x \<Rightarrow> x < 0 | NegZero \<Rightarrow> True | PlusInfinity \<Rightarrow> False
      | MinusInfinity \<Rightarrow> True | NaN \<Rightarrow> False)"

definition float_is_zero :: "cfloat \<Rightarrow> bool" where
  "float_is_zero a = (a = Finite 0 \<or> a = NegZero)"

definition float_is_infinite :: "cfloat \<Rightarrow> bool" where
  "float_is_infinite a = (a = PlusInfinity \<or> a = MinusInfinity)"

definition float_value :: "cfloat \<Rightarrow> real" where
  "float_value a = (case a of Finite x \<Rightarrow> x | _ \<Rightarrow> 0)"

definition float_div :: "cfloat \<Rightarrow> cfloat \<Rightarrow> cfloat" where
  "float_div a b =
     (let negative = (float_negative a \<noteq> float_negative b)
      in if a = NaN \<or> b = NaN then NaN
         else if float_is_infinite a
           then (if float_is_infinite b then NaN
                 else if negative then MinusInfinity else PlusInfinity)
         else if float_is_infinite b then (if negative then NegZero else Finite 0)
         else if float_is_zero b
           then (if float_is_zero a then NaN
                 else if negative then MinusInfinity else PlusInfinity)
         else if float_is_zero a then (if negative then NegZero else Finite 0)
         else float_round (float_value a / float_value b))"

subsection \<open>range_t\<close>

text \<open>
  Modelled from the spec: \<^verbatim>\<open>range_t\<close> is declared in util.h, outside plotview.cpp. A
  sample range is a pair of a minimum and a maximum, and its length is the maximum minus
  the minimum.
\<close>

record 'a range_t =
  minimum :: 'a
  maximum :: 'a

definition range_length :: "('a::len word) range_t \<Rightarrow> 'a word" where
  "range_length r = maximum r - minimum r"

subsection \<open>The scroll bars of Qt\<close>

text \<open>
  \<^verbatim>\<open>QAbstractSlider\<close>, as Qt documents and implements it. \<^verbatim>\<open>setValue\<close> forces the value
  into the range. \<^verbatim>\<open>setRange(min, max)\<close> stores \<open>min\<close> and the larger of \<open>min\<close> and
  \<open>max\<close>, and bounds the value again when the range has changed. \<^verbatim>\<open>setMinimum(min)\<close> is
  \<^verbatim>\<open>setRange(min, qMax(maximum, min))\<close> and \<^verbatim>\<open>setMaximum(max)\<close> is
  \<^verbatim>\<open>setRange(qMin(minimum, max), max)\<close>: setting one end moves the other end where the
  range would become empty. The steps are stored as absolute values. A scroll bar emits
  \<^verbatim>\<open>valueChanged\<close> when a call leaves it with another value than it had.
\<close>

record QScrollBar =
  sb_minimum :: cint
  sb_maximum :: cint
  sb_value :: cint
  singleStep :: cint
  pageStep :: cint

definition bound :: "QScrollBar \<Rightarrow> cint \<Rightarrow> cint" where
  "bound sb v = smax (sb_minimum sb) (smin (sb_maximum sb) v)"

definition setValue :: "cint \<Rightarrow> QScrollBar \<Rightarrow> QScrollBar" where
  "setValue v sb = sb\<lparr>sb_value := bound sb v\<rparr>"

definition setRange :: "cint \<Rightarrow> cint \<Rightarrow> QScrollBar \<Rightarrow> QScrollBar" where
  "setRange mn mx sb =
     (let sb' = sb\<lparr>sb_minimum := mn, sb_maximum := smax mn mx\<rparr>
      in if sb_minimum sb \<noteq> sb_minimum sb' \<or> sb_maximum sb \<noteq> sb_maximum sb'
         then setValue (sb_value sb') sb' else sb')"

definition setMinimum :: "cint \<Rightarrow> QScrollBar \<Rightarrow> QScrollBar" where
  "setMinimum mn sb = setRange mn (smax (sb_maximum sb) mn) sb"

definition setMaximum :: "cint \<Rightarrow> QScrollBar \<Rightarrow> QScrollBar" where
  "setMaximum mx sb = setRange (smin (sb_minimum sb) mx) mx sb"

definition valueChanged :: "QScrollBar \<Rightarrow> QScrollBar \<Rightarrow> bool" where
  "valueChanged sb sb' = (sb_value sb' \<noteq> sb_value sb)"

definition setSteps :: "cint \<Rightarrow> cint \<Rightarrow> QScrollBar \<Rightarrow> QScrollBar" where
  "setSteps single page sb = sb\<lparr>singleStep := qAbs single, pageStep := qAbs page\<rparr>"

definition setSingleStep :: "cint \<Rightarrow> QScrollBar \<Rightarrow> QScrollBar" where
  "setSingleStep step sb = (if step \<noteq> singleStep sb then setSteps step (pageStep sb) sb else sb)"

definition setPageStep :: "cint \<Rightarrow> QScrollBar \<Rightarrow> QScrollBar" where
  "setPageStep step sb = (if step \<noteq> pageStep sb then setSteps (singleStep sb) step sb else sb)"

subsection \<open>Rectangles of Qt\<close>

text \<open>
  \<^verbatim>\<open>QRect\<close> stores its corners: a rectangle at \<open>(x, y)\<close> of width \<open>w\<close> has its right
  edge at \<open>x + w - 1\<close>. The rectangle of a widget starts at the origin.
\<close>

record QRect =
  x1 :: cint
  y1 :: cint
  x2 :: cint
  y2 :: cint

definition QRect_xywh :: "cint \<Rightarrow> cint \<Rightarrow> cint \<Rightarrow> cint \<Rightarrow> QRect" where
  "QRect_xywh x y w h = \<lparr>x1 = x, y1 = y, x2 = x + w - 1, y2 = y + h - 1\<rparr>"

definition left :: "QRect \<Rightarrow> cint" where
  "left r = x1 r"

definition right :: "QRect \<Rightarrow> cint" where
  "right r = x2 r"

definition width :: "QRect \<Rightarrow> cint" where
  "width r = x2 r - x1 r + 1"

subsection \<open>Events\<close>

datatype MouseEventType = MouseButtonPress | MouseMove | MouseButtonRelease

record QMouseEvent =
  pos_x :: cint
  pos_y :: cint
  button :: nat
  buttons :: nat
  modifiers :: "32 word"



datatype signal = TimeSelectionChanged cfloat | ZoomIn | ZoomOut

subsection \<open>Plots and the cursor overlay\<close>

text \<open>
  Modelled from the spec: the class \<^verbatim>\<open>Plot\<close> is declared in plot.h, outside plotview.cpp.
  A plot has a fixed pixel height; its \<^verbatim>\<open>mouseEvent\<close> returns whether it consumed the
  event and may update the plot's own state. The state of a plot is the sequence of
  events it was offered, and \<open>consumes\<close> decides from it.
\<close>

record Plot =
  plot_height :: cint
  consumes :: "(MouseEventType \<times> QMouseEvent) list \<Rightarrow> MouseEventType \<Rightarrow> QMouseEvent \<Rightarrow> bool"
  offered :: "(MouseEventType \<times> QMouseEvent) list"


text \<open>
  Modelled from the spec: the class \<^verbatim>\<open>Cursors\<close> is declared in cursors.h, outside
  plotview.cpp. The overlay tracks a two-handle selection in pixels and a number of segments that
  subdivides the selection for painting only; \<^verbatim>\<open>setSelection\<close> and \<^verbatim>\<open>setSegments\<close> store
  their argument and \<^verbatim>\<open>selection\<close> reads the pixel selection.
\<close>

record Cursors =
  selection :: "cint range_t"
  segmentCount :: cint

definition setSelection :: "cint range_t \<Rightarrow> Cursors \<Rightarrow> Cursors" where
  "setSelection r c = c\<lparr>selection := r\<rparr>"


text \<open>The display parameters that \<^verbatim>\<open>PlotView\<close> forwards to its spectrogram plot.\<close>

record SpectrogramPlot =
  sp_fftSize :: cint
  sp_zoomLevel :: cint
  sp_powerMin :: cint
  sp_powerMax :: cint

subsection \<open>The state of PlotView\<close>

text \<open>
  The members of the class, then what it reads from Qt and from the sample source, then
  what it sends out. \<open>widget_width\<close> is \<^verbatim>\<open>width()\<close>; the viewport has a size of its own.
  Modelled from the spec: the sample source is declared in samplesource.h, outside
  plotview.cpp; \<^verbatim>\<open>count()\<close> is an integer of the width of a sample index and \<^verbatim>\<open>rate()\<close>
  is a real.
\<close>

record PlotView =
  cursors :: Cursors
  spectrogramPlot :: "SpectrogramPlot option"
  plots :: "Plot list"
  viewRange :: "off_t range_t"
  selectedSamples :: "off_t range_t"
  fftSize :: cint
  zoomLevel :: cint
  powerMin :: cint
  powerMax :: cint
  cursorsEnabled :: bool
  horizontalScrollBar :: QScrollBar
  verticalScrollBar :: QScrollBar
  widget_width :: cint
  viewport_width :: cint
  viewport_height :: cint
  keyboardModifiers :: "32 word"
  source_count :: off_t
  source_rate :: real
  emitted :: "signal list"
  update_requests :: nat

definition viewport_rect :: "PlotView \<Rightarrow> QRect" where
  "viewport_rect s = QRect_xywh 0 0 (viewport_width s) (viewport_height s)"

definition viewport_update :: "PlotView \<Rightarrow> PlotView" where
  "viewport_update s = s\<lparr>update_requests := Suc (update_requests s)\<rparr>"

definition emit :: "signal \<Rightarrow> PlotView \<Rightarrow> PlotView" where
  "emit sig s = s\<lparr>emitted := emitted s @ [sig]\<rparr>"

subsection \<open>The operations of PlotView\<close>

definition samplesPerLine :: "PlotView \<Rightarrow> error + off_t" where
  "samplesPerLine s =
     (case checked_div (fftSize s) (zoomLevel s) of
        Inl e \<Rightarrow> Inl e
      | Inr q \<Rightarrow> Inr (widen q))"

text \<open>
  The selection time is a \<^verbatim>\<open>float\<close>: the sample count and the rate are converted to
  \<^verbatim>\<open>float\<close> and divided there.
\<close>

definition cursorsMoved :: "PlotView \<Rightarrow> error + PlotView" where
  "cursorsMoved s =
     (case samplesPerLine s of
        Inl e \<Rightarrow> Inl e
      | Inr spl \<Rightarrow>
          let v = widen (sb_value (horizontalScrollBar s));
              s1 = s\<lparr>selectedSamples :=
                      \<lparr>minimum = v + widen (minimum (selection (cursors s))) * spl,
                       maximum = v + widen (maximum (selection (cursors s))) * spl\<rparr>\<rparr>;
              sampleCount = range_length (selectedSamples s1);
              selectionTime = float_div (float_round (real_of_int (sint sampleCount)))
                                (float_round (source_rate s1))
          in Inr (viewport_update (emit (TimeSelectionChanged selectionTime) s1)))"

definition enableCursors :: "bool \<Rightarrow> PlotView \<Rightarrow> PlotView" where
  "enableCursors enabled s =
     (let s1 = s\<lparr>cursorsEnabled := enabled\<rparr>;
          s2 = (if enabled
                then let margin = cdiv (width (viewport_rect s1)) 3
                     in s1\<lparr>cursors := setSelection
                              \<lparr>minimum = left (viewport_rect s1) + margin,
                               maximum = right (viewport_rect s1) - margin\<rparr> (cursors s1)\<rparr>
                else s1)
      in viewport_update s2)"


fun plotsHeight_from :: "cint \<Rightarrow> Plot list \<Rightarrow> cint" where
  "plotsHeight_from h [] = h"
| "plotsHeight_from h (p # ps) = plotsHeight_from (h + plot_height p) ps"

definition plotsHeight :: "PlotView \<Rightarrow> cint" where
  "plotsHeight s = plotsHeight_from 0 (plots s)"

text \<open>
  The last two steps of \<^verbatim>\<open>updateView\<close>: the pixel cursors are set from the absolute
  selection, and the viewport is asked to repaint.
\<close>

definition update_cursors :: "off_t \<Rightarrow> PlotView \<Rightarrow> error + PlotView" where
  "update_cursors spl s =
     (case checked_div
             (minimum (selectedSamples s) - widen (sb_value (horizontalScrollBar s))) spl of
        Inl e \<Rightarrow> Inl e
      | Inr cmin \<Rightarrow>
          (case checked_div
                  (maximum (selectedSamples s) - widen (sb_value (horizontalScrollBar s))) spl of
             Inl e \<Rightarrow> Inl e
           | Inr cmax \<Rightarrow>
               Inr (viewport_update
                     (s\<lparr>cursors := setSelection
                           \<lparr>minimum = narrow cmin, maximum = narrow cmax\<rparr> (cursors s)\<rparr>))))"

text \<open>
  \<^verbatim>\<open>samplesPerLine()\<close> depends on the FFT size and the zoom level only, which
  \<^verbatim>\<open>updateView\<close> does not change: its four calls return the value of the first.
  After each call on a scroll bar that changed the value of the bar, the slot
  \<^verbatim>\<open>scrollContentsBy\<close> has run, which is \<^verbatim>\<open>updateView(false)\<close>, and the body goes on in
  the state the slot has left.
\<close>

partial_function (option) updateView :: "bool \<Rightarrow> PlotView \<Rightarrow> (error + PlotView) option" where
  "updateView reCenter s =
     (case samplesPerLine s of
        Inl e \<Rightarrow> Some (Inl e)
      | Inr spl \<Rightarrow>
          let oldViewRange = viewRange s;
              v = sb_value (horizontalScrollBar s);
              s1 = s\<lparr>viewRange := \<lparr>minimum = widen v,
                                   maximum = widen v + widen (widget_width s) * spl\<rparr>\<rparr>
          in Option.bind
               (if reCenter
                then let hb = setValue
                                (narrow (widen (sb_value (horizontalScrollBar s1))
                                   + cdiv (range_length oldViewRange - range_length (viewRange s1)) 2))
                                (horizontalScrollBar s1)
                     in if valueChanged (horizontalScrollBar s1) hb
                        then updateView False (s1\<lparr>horizontalScrollBar := hb\<rparr>)
                        else Some (Inr (s1\<lparr>horizontalScrollBar := hb\<rparr>))
                else Some (Inr s1))
               (\<lambda>r. case r of
                  Inl e \<Rightarrow> Some (Inl e)
                | Inr s2 \<Rightarrow>
                    let hb = setMaximum
                               (narrow (source_count s2 - widen (widget_width s2 - 1) * spl))
                               (horizontalScrollBar s2)
                    in Option.bind
                         (if valueChanged (horizontalScrollBar s2) hb
                          then updateView False (s2\<lparr>horizontalScrollBar := hb\<rparr>)
                          else Some (Inr (s2\<lparr>horizontalScrollBar := hb\<rparr>)))
                         (\<lambda>r. case r of
                            Inl e \<Rightarrow> Some (Inl e)
                          | Inr s3 \<Rightarrow>
                              let vb = setMaximum (smax 0 (plotsHeight s3 - viewport_height s3))
                                         (verticalScrollBar s3)
                              in Option.bind
                                   (if valueChanged (verticalScrollBar s3) vb
                                    then updateView False (s3\<lparr>verticalScrollBar := vb\<rparr>)
                                    else Some (Inr (s3\<lparr>verticalScrollBar := vb\<rparr>)))
                                   (\<lambda>r. case r of
                                      Inl e \<Rightarrow> Some (Inl e)
                                    | Inr s4 \<Rightarrow> Some (update_cursors spl s4)))))"

declare updateView.simps [code]

definition resizeEvent :: "PlotView \<Rightarrow> (error + PlotView) option" where
  "resizeEvent s = updateView False s"

definition scrollContentsBy :: "PlotView \<Rightarrow> (error + PlotView) option" where
  "scrollContentsBy s = updateView False s"

text \<open>
  \<^verbatim>\<open>invalidateEvent\<close> writes to the horizontal scroll bar twice; after each write that
  changed the value of the bar, \<^verbatim>\<open>scrollContentsBy\<close> has run.
\<close>

definition invalidateEvent :: "PlotView \<Rightarrow> (error + PlotView) option" where
  "invalidateEvent s =
     (let hb = setMinimum 0 (horizontalScrollBar s)
      in Option.bind
           (if valueChanged (horizontalScrollBar s) hb
            then scrollContentsBy (s\<lparr>horizontalScrollBar := hb\<rparr>)
            else Some (Inr (s\<lparr>horizontalScrollBar := hb\<rparr>)))
           (\<lambda>r. case r of
              Inl e \<Rightarrow> Some (Inl e)
            | Inr s1 \<Rightarrow>
                let hb = setMaximum (narrow (source_count s1)) (horizontalScrollBar s1)
                in if valueChanged (horizontalScrollBar s1) hb
                   then scrollContentsBy (s1\<lparr>horizontalScrollBar := hb\<rparr>)
                   else Some (Inr (s1\<lparr>horizontalScrollBar := hb\<rparr>))))"

definition setFFTAndZoom :: "cint \<Rightarrow> cint \<Rightarrow> PlotView \<Rightarrow> (error + PlotView) option" where
  "setFFTAndZoom sz zoom s =
     (let s1 = s\<lparr>fftSize := sz,
                   spectrogramPlot := map_option (\<lambda>p. p\<lparr>sp_fftSize := sz\<rparr>) (spectrogramPlot s)\<rparr>;
          s2 = s1\<lparr>zoomLevel := zoom,
                    spectrogramPlot := map_option (\<lambda>p. p\<lparr>sp_zoomLevel := zoom\<rparr>) (spectrogramPlot s1)\<rparr>
      in case checked_div (sz * 10) (zoomLevel s2) of
           Inl e \<Rightarrow> Some (Inl e)
         | Inr single \<Rightarrow>
             (let s3 = s2\<lparr>horizontalScrollBar := setSingleStep single (horizontalScrollBar s2)\<rparr>
              in case checked_div (sz * 100) (zoomLevel s3) of
                   Inl e \<Rightarrow> Some (Inl e)
                 | Inr page \<Rightarrow>
                     updateView True
                       (s3\<lparr>horizontalScrollBar := setPageStep page (horizontalScrollBar s3)\<rparr>)))"

definition setPowerMin :: "cint \<Rightarrow> PlotView \<Rightarrow> (error + PlotView) option" where
  "setPowerMin pw s =
     updateView False
       (s\<lparr>powerMin := pw,
          spectrogramPlot := map_option (\<lambda>p. p\<lparr>sp_powerMin := pw\<rparr>) (spectrogramPlot s)\<rparr>)"

definition setPowerMax :: "cint \<Rightarrow> PlotView \<Rightarrow> (error + PlotView) option" where
  "setPowerMax pw s =
     updateView False
       (s\<lparr>powerMax := pw,
          spectrogramPlot := map_option (\<lambda>p. p\<lparr>sp_powerMax := pw\<rparr>) (spectrogramPlot s)\<rparr>)"



subsection \<open>Concrete states\<close>

text \<open>
  A source of 1000 samples at rate 1000, FFT size 64 at zoom 1, a viewport of ten columns,
  scroll position 0, and the pixel cursors at columns 2 and 5.
\<close>

definition default_scrollbar :: QScrollBar where
  "default_scrollbar =
     \<lparr>sb_minimum = 0, sb_maximum = 99, sb_value = 0, singleStep = 1, pageStep = 10\<rparr>"

definition scenario :: PlotView where
  "scenario =
     \<lparr>cursors = \<lparr>selection = \<lparr>minimum = 2, maximum = 5\<rparr>, segmentCount = 1\<rparr>,
      spectrogramPlot = None,
      plots = [],
      viewRange = \<lparr>minimum = 0, maximum = 0\<rparr>,
      selectedSamples = \<lparr>minimum = 0, maximum = 0\<rparr>,
      fftSize = 64, zoomLevel = 1, powerMin = 0, powerMax = 0,
      cursorsEnabled = True,
      horizontalScrollBar = default_scrollbar,
      verticalScrollBar = default_scrollbar,
      widget_width = 10, viewport_width = 10, viewport_height = 100,
      keyboardModifiers = 0,
      source_count = 1000, source_rate = 1000,
      emitted = [], update_requests = 0\<rparr>"

text \<open>The same source at zoom 2, scrolled to sample 100, with the cursors at columns 1 and 3.\<close>

definition scrolled :: PlotView where
  "scrolled = scenario\<lparr>zoomLevel := 2,
      cursors := \<lparr>selection = \<lparr>minimum = 1, maximum = 3\<rparr>, segmentCount = 1\<rparr>,
      horizontalScrollBar := \<lparr>sb_minimum = 0, sb_maximum = 712, sb_value = 100, singleStep = 320, pageStep = 3200\<rparr>\<rparr>"

text \<open>The same view on a source without samples, and on a widget of width 0.\<close>

definition empty_source :: PlotView where
  "empty_source = scenario\<lparr>source_count := 0\<rparr>"

definition zero_width :: PlotView where
  "zero_width = scenario\<lparr>widget_width := 0\<rparr>"

text \<open>The same view on a source of \<open>2 ^ 31\<close> samples, one more than a scroll bar can hold.\<close>

definition huge_source :: PlotView where
  "huge_source = scenario\<lparr>source_count := 2147483648\<rparr>"

text \<open>
  The scenario scrolled to sample 500 within a scroll range from 0 to 1000; the scenario
  in a scroll area that is two pixels wider than its viewport; and a view scrolled to
  sample 50000 of a long source, after the source has shrunk to 1000 samples.
\<close>

definition scrolled_past :: PlotView where
  "scrolled_past = scenario\<lparr>horizontalScrollBar :=
      \<lparr>sb_minimum = 0, sb_maximum = 1000, sb_value = 500, singleStep = 1, pageStep = 10\<rparr>\<rparr>"

definition framed :: PlotView where
  "framed = scenario\<lparr>widget_width := 12\<rparr>"

definition shrunk_source :: PlotView where
  "shrunk_source = scenario\<lparr>horizontalScrollBar :=
      \<lparr>sb_minimum = 0, sb_maximum = 99424, sb_value = 50000, singleStep = 640, pageStep = 6400\<rparr>\<rparr>"

text \<open>
  The scenario at zoom 64, one sample per column, on a source of rate 1, with the cursors
  at the columns 0 and 16777217.
\<close>

definition fine_selection :: PlotView where
  "fine_selection = scenario\<lparr>zoomLevel := 64, source_rate := 1,
      cursors := \<lparr>selection = \<lparr>minimum = 0, maximum = 16777217\<rparr>, segmentCount = 1\<rparr>\<rparr>"

text \<open>
  The scenario with an absolute selection from 130 to 320, which \<^verbatim>\<open>updateView\<close> shows at
  the columns 2 and 5.
\<close>

definition offgrid :: PlotView where
  "offgrid = scenario\<lparr>selectedSamples := \<lparr>minimum = 130, maximum = 320\<rparr>\<rparr>"

text \<open>
  The scenario at zoom 64, one sample per column, with an absolute selection that starts
  at sample \<open>2 ^ 32\<close>.
\<close>

definition far_selection :: PlotView where
  "far_selection = scenario\<lparr>zoomLevel := 64,
      selectedSamples := \<lparr>minimum = 4294967296, maximum = 4294967306\<rparr>\<rparr>"

text \<open>
  A source of 100000 samples viewed at FFT size 64 and zoom 1 from sample 0; the same
  view after the FFT size has become 128; and the view from sample 1000 after the zoom
  has become 2.
\<close>

definition long_view :: PlotView where
  "long_view = scenario\<lparr>source_count := 100000,
      viewRange := \<lparr>minimum = 0, maximum = 640\<rparr>,
      horizontalScrollBar :=
        \<lparr>sb_minimum = 0, sb_maximum = 99424, sb_value = 0, singleStep = 640, pageStep = 6400\<rparr>\<rparr>"

definition zoom_out :: PlotView where
  "zoom_out = long_view\<lparr>fftSize := 128\<rparr>"

definition zoom_in :: PlotView where
  "zoom_in = long_view\<lparr>zoomLevel := 2,
      viewRange := \<lparr>minimum = 1000, maximum = 1640\<rparr>,
      horizontalScrollBar :=
        \<lparr>sb_minimum = 0, sb_maximum = 99424, sb_value = 1000, singleStep = 640, pageStep = 6400\<rparr>\<rparr>"

subsection \<open>The routing of pointer events, in the words of the specification\<close>




subsection \<open>A stack of plots\<close>








section \<open>Arithmetic of the machine integers\<close>

lemma sint32_abs: "\<bar>sint (x :: cint)\<bar> \<le> 2 ^ 31"
  using sint_ge [of x] sint_lt [of x] by simp

lemma int_prod_bound:
  fixes a b :: int
  assumes "\<bar>a\<bar> \<le> 2 ^ 31" "\<bar>b\<bar> \<le> 2 ^ 31"
  shows "\<bar>a * b\<bar> \<le> 2 ^ 62"
proof -
  have "\<bar>a\<bar> * \<bar>b\<bar> \<le> 2 ^ 31 * 2 ^ 31"
    using assms by (intro mult_mono) simp_all
  then show ?thesis by (simp add: abs_mult)
qed

lemma sint_widen [simp]: "sint (widen x) = sint x"
  by (simp add: widen_def sint_up_scast is_up)

lemma stb63:
  fixes k :: int
  assumes "- (2 ^ 63) \<le> k" "k < 2 ^ 63"
  shows "signed_take_bit (63::nat) k = k"
  using assms by (rule signed_take_bit_int_eq_self)

lemma stb31:
  fixes k :: int
  assumes "- (2 ^ 31) \<le> k" "k < 2 ^ 31"
  shows "signed_take_bit (31::nat) k = k"
  using assms by (rule signed_take_bit_int_eq_self)

lemma sint64_of_int:
  fixes k :: int
  assumes "- (2 ^ 63) \<le> k" "k < 2 ^ 63"
  shows "sint (word_of_int k :: off_t) = k"
  using stb63 [OF assms] by (simp add: sint_sbintrunc')

lemma sint32_of_int:
  fixes k :: int
  assumes "- (2 ^ 31) \<le> k" "k < 2 ^ 31"
  shows "sint (word_of_int k :: cint) = k"
  using stb31 [OF assms] by (simp add: sint_sbintrunc')

lemma sint_mult_widen: "sint (widen a * widen b) = sint a * sint b"
proof -
  have "\<bar>sint a * sint b\<bar> \<le> 2 ^ 62"
    by (rule int_prod_bound) (rule sint32_abs)+
  then have "- (2 ^ 63) \<le> sint a * sint b" "sint a * sint b < 2 ^ 63"
    by simp_all
  then have "signed_take_bit (63::nat) (sint a * sint b) = sint a * sint b"
    by (rule stb63)
  then show ?thesis
    by (simp add: sint_word_ariths)
qed

lemma sint64_add:
  fixes x y :: off_t
  assumes "- (2 ^ 63) \<le> sint x + sint y" "sint x + sint y < 2 ^ 63"
  shows "sint (x + y) = sint x + sint y"
  using stb63 [OF assms] by (simp add: sint_word_ariths)

lemma sint64_diff:
  fixes x y :: off_t
  assumes "- (2 ^ 63) \<le> sint x - sint y" "sint x - sint y < 2 ^ 63"
  shows "sint (x - y) = sint x - sint y"
  using stb63 [OF assms] by (simp add: sint_word_ariths)

lemma sint32_add:
  fixes x y :: cint
  assumes "- (2 ^ 31) \<le> sint x + sint y" "sint x + sint y < 2 ^ 31"
  shows "sint (x + y) = sint x + sint y"
  using stb31 [OF assms] by (simp add: sint_word_ariths)

lemma sint32_diff:
  fixes x y :: cint
  assumes "- (2 ^ 31) \<le> sint x - sint y" "sint x - sint y < 2 ^ 31"
  shows "sint (x - y) = sint x - sint y"
  using stb31 [OF assms] by (simp add: sint_word_ariths)

lemma widen_prod_bound: "\<bar>sint (widen a * widen b)\<bar> \<le> 2 ^ 62"
  unfolding sint_mult_widen by (rule int_prod_bound) (rule sint32_abs)+

lemma sint_add_mult_widen: "sint (widen v + widen a * widen b) = sint v + sint a * sint b"
proof -
  have "\<bar>sint (widen a * widen b)\<bar> \<le> 2 ^ 62"
    by (rule widen_prod_bound)
  moreover have "\<bar>sint (widen v)\<bar> \<le> 2 ^ 31"
    using sint32_abs [of v] by simp
  ultimately have "sint (widen v + widen a * widen b) = sint (widen v) + sint (widen a * widen b)"
    by (intro sint64_add) simp_all
  then show ?thesis
    by (simp add: sint_mult_widen)
qed

lemma checked_div_Inr:
  "b \<noteq> 0 \<Longrightarrow> b \<noteq> - 1 \<Longrightarrow> checked_div a b = Inr (cdiv a b)"
  by (simp add: checked_div_def)


section \<open>The exponent of a single-precision number\<close>

text \<open>
  \<open>float_exponent\<close> counts binary digits; on the positive numbers it is the integer part
  of the binary logarithm.
\<close>

lemma float_exponent_ge1:
  fixes x :: real
  assumes "1 \<le> x"
  shows "float_exponent x = \<lfloor>log 2 x\<rfloor>"
proof -
  let ?n = "\<lfloor>x\<rfloor>"
  have n: "0 < ?n" using assms by simp
  let ?k = "bitlen ?n - 1"
  have k0: "0 \<le> ?k"
    using n by (simp add: bitlen_alt_def)
  from bitlen_bounds [OF n] have b: "2 ^ nat ?k \<le> ?n" "?n < 2 ^ nat (bitlen ?n)"
    by simp_all
  have "nat (bitlen ?n) = Suc (nat ?k)"
    using k0 by simp
  with b(2) have b2: "?n + 1 \<le> 2 ^ Suc (nat ?k)"
    by simp
  have lo: "2 powr (of_int ?k) \<le> x"
  proof -
    have "(2::real) powr (of_int ?k) = 2 ^ nat ?k"
      using k0 by (simp add: powr_realpow [symmetric])
    also have "\<dots> = of_int (2 ^ nat ?k)" by simp
    also have "\<dots> \<le> of_int ?n" using b(1) by (rule of_int_le_iff [THEN iffD2])
    also have "\<dots> \<le> x" by simp
    finally show ?thesis .
  qed
  have hi: "x < 2 powr (of_int (?k + 1))"
  proof -
    have "x < of_int (?n + 1)" by linarith
    also have "\<dots> \<le> of_int (2 ^ Suc (nat ?k))" using b2 by (rule of_int_le_iff [THEN iffD2])
    also have "\<dots> = (2::real) ^ Suc (nat ?k)" by simp
    also have "\<dots> = 2 powr (real (Suc (nat ?k)))"
      by (rule powr_realpow [symmetric]) simp
    also have "real (Suc (nat ?k)) = of_int (?k + 1)"
      using k0 by simp
    finally show ?thesis .
  qed
  have "\<lfloor>log 2 x\<rfloor> = ?k"
    using assms lo hi by (subst floor_log_eq_powr_iff) simp_all
  then show ?thesis
    using assms by (simp add: float_exponent_def)
qed

lemma float_exponent_lt1:
  fixes x :: real
  assumes "0 < x" "x < 1"
  shows "float_exponent x = \<lfloor>log 2 x\<rfloor>"
proof -
  let ?N = "\<lceil>1 / x\<rceil>"
  have y: "1 < 1 / x" using assms by simp
  then have N2: "2 \<le> ?N" by linarith
  then have n: "0 < ?N - 1" by simp
  let ?k = "bitlen (?N - 1)"
  have k1: "1 \<le> ?k"
    using n by (simp add: bitlen_alt_def)
  from bitlen_bounds [OF n] have b: "2 ^ nat (?k - 1) \<le> ?N - 1" "?N - 1 < 2 ^ nat ?k"
    by simp_all
  have pk: "(2::real) powr (of_int (- ?k)) = 1 / 2 ^ nat ?k"
    using k1 by (simp add: powr_minus powr_realpow [symmetric] field_simps)
  have pk1: "(2::real) powr (of_int (- ?k + 1)) = 1 / 2 ^ nat (?k - 1)"
  proof -
    have "(2::real) powr (of_int (- ?k + 1)) = 2 powr (- of_int (?k - 1))"
      by simp
    also have "\<dots> = 1 / 2 powr (of_int (?k - 1))"
      by (simp only: powr_minus_divide)
    also have "\<dots> = 1 / 2 ^ nat (?k - 1)"
      using k1 by (simp add: powr_realpow [symmetric])
    finally show ?thesis .
  qed
  have lo: "2 powr (of_int (- ?k)) \<le> x"
  proof -
    have "1 / x \<le> of_int ?N" by linarith
    also have "\<dots> \<le> of_int (2 ^ nat ?k)"
      using b(2) by (intro of_int_le_iff [THEN iffD2]) simp
    also have "\<dots> = (2::real) ^ nat ?k" by simp
    finally have "1 / x \<le> 2 ^ nat ?k" .
    then have "1 / 2 ^ nat ?k \<le> x"
      using assms(1) by (simp add: field_simps)
    then show ?thesis by (simp only: pk)
  qed
  have hi: "x < 2 powr (of_int (- ?k + 1))"
  proof -
    have "(2::real) ^ nat (?k - 1) = of_int (2 ^ nat (?k - 1))" by simp
    also have "\<dots> \<le> of_int (?N - 1)"
      using b(1) by (rule of_int_le_iff [THEN iffD2])
    also have "\<dots> < 1 / x" by linarith
    finally have "(2::real) ^ nat (?k - 1) < 1 / x" .
    then have "x < 1 / 2 ^ nat (?k - 1)"
      using assms(1) by (simp add: field_simps)
    then show ?thesis by (simp only: pk1)
  qed
  have "\<lfloor>log 2 x\<rfloor> = - ?k"
    using assms lo hi by (subst floor_log_eq_powr_iff) simp_all
  then show ?thesis
    using assms by (simp add: float_exponent_def)
qed

lemma float_exponent_log: "0 < x \<Longrightarrow> float_exponent x = \<lfloor>log 2 x\<rfloor>"
  using float_exponent_ge1 [of x] float_exponent_lt1 [of x] by (cases "1 \<le> x") simp_all

section \<open>Narrowing and the bounds of a scroll bar\<close>

lemma narrow_eq: "narrow x = word_of_int (sint x)"
  unfolding narrow_def
  by (rule bit_word_eqI) (auto simp: bit_simps)

lemma sint_narrow: "sint (narrow x) = signed_take_bit (31::nat) (sint x)"
  unfolding narrow_eq sint_sbintrunc' by simp

lemma sint_narrow_fits:
  assumes "- (2 ^ 31) \<le> sint x" "sint x < 2 ^ 31"
  shows "sint (narrow x) = sint x"
  unfolding sint_narrow using assms by (rule stb31)

lemma narrow_word_of_int: "narrow (word_of_int k) = word_of_int k"
  unfolding narrow_def
  by (rule bit_word_eqI) (auto simp: bit_simps)

lemma sint_narrow_cdiv:
  fixes a b :: off_t
  shows "sint (narrow (cdiv a b)) = signed_take_bit (31::nat) (sint a sdiv sint b)"
  unfolding cdiv_def narrow_word_of_int sint_sbintrunc' by simp

lemma sint_diff64: 
  fixes x y :: off_t
  shows "sint (x - y) = signed_take_bit (63::nat) (sint x - sint y)"
  by (simp add: sint_word_ariths)

lemma sint_smax: "sint (smax a b) = max (sint a) (sint b)"
  by (simp add: smax_def word_sless_alt)

lemma sint_smin: "sint (smin a b) = min (sint a) (sint b)"
  by (simp add: smin_def word_sless_alt)

lemma sint_bound: "sint (bound sb v) = max (sint (sb_minimum sb)) (min (sint (sb_maximum sb)) (sint v))"
  by (simp add: bound_def sint_smax sint_smin)

lemma bound_id:
  assumes "sint (sb_minimum sb) \<le> sint v" "sint v \<le> sint (sb_maximum sb)"
  shows "bound sb v = v"
proof -
  have "sint (bound sb v) = sint v"
    using assms by (simp add: sint_bound)
  then show ?thesis
    by (rule signed_word_eqI)
qed

lemma setRange_fields [simp]:
  "sb_minimum (setRange mn mx sb) = mn"
  "sb_maximum (setRange mn mx sb) = smax mn mx"
  by (simp_all add: setRange_def Let_def setValue_def)

lemma setRange_value_kept:
  assumes "sint mn \<le> sint (sb_value sb)" "sint (sb_value sb) \<le> sint mx"
  shows "sb_value (setRange mn mx sb) = sb_value sb"
proof -
  have "bound (sb\<lparr>sb_minimum := mn, sb_maximum := smax mn mx\<rparr>) (sb_value sb) = sb_value sb"
    using assms by (intro bound_id) (simp_all add: sint_smax)
  then show ?thesis
    by (simp add: setRange_def Let_def setValue_def)
qed

lemma setValue_range [simp]:
  "sb_minimum (setValue v sb) = sb_minimum sb"
  "sb_maximum (setValue v sb) = sb_maximum sb"
  by (simp_all add: setValue_def)

section \<open>A view update and the updates it runs\<close>

text \<open>
  A scroll bar whose maximum is set to the value it has keeps its range and its value:
  the second \<^verbatim>\<open>setMaximum\<close> with the same argument emits nothing. This bounds the depth
  of the updates that run inside an update: the update that a moving horizontal bar runs
  finds the horizontal range in place, and the update that a moving vertical bar runs
  finds both ranges in place.
\<close>

lemma smin_smin [simp]: "smin (smin mn M) M = smin mn M"
  by (simp add: smin_def)

lemma smax_smin [simp]: "smax (smin mn M) M = M"
  by (metis smin_def smax_def signed.neqE)

lemma sb_maximum_setMaximum [simp]: "sb_maximum (setMaximum M sb) = M"
  by (simp add: setMaximum_def setRange_def Let_def setValue_def)

lemma sb_minimum_setMaximum [simp]: "sb_minimum (setMaximum M sb) = smin (sb_minimum sb) M"
  by (simp add: setMaximum_def setRange_def Let_def setValue_def)

lemma setMaximum_idem [simp]: "setMaximum M (setMaximum M sb) = setMaximum M sb"
proof -
  have "setRange (smin (sb_minimum (setMaximum M sb)) M) M (setMaximum M sb) = setMaximum M sb"
    by (simp add: setRange_def Let_def)
  then show ?thesis
    by (subst setMaximum_def) simp
qed

lemma valueChanged_refl [simp]: "\<not> valueChanged sb sb"
  by (simp add: valueChanged_def)

lemma samplesPerLine_frame [simp]:
  "samplesPerLine (s\<lparr>horizontalScrollBar := hb\<rparr>) = samplesPerLine s"
  "samplesPerLine (s\<lparr>verticalScrollBar := vb\<rparr>) = samplesPerLine s"
  "samplesPerLine (s\<lparr>viewRange := vr\<rparr>) = samplesPerLine s"
  "samplesPerLine (s\<lparr>spectrogramPlot := sp\<rparr>) = samplesPerLine s"
  "samplesPerLine (s\<lparr>update_requests := n\<rparr>) = samplesPerLine s"
  "samplesPerLine (s\<lparr>selectedSamples := sel\<rparr>) = samplesPerLine s"
  "samplesPerLine (s\<lparr>cursors := c\<rparr>) = samplesPerLine s"
  by (simp_all add: samplesPerLine_def)

lemma plotsHeight_frame [simp]:
  "plotsHeight (s\<lparr>horizontalScrollBar := hb\<rparr>) = plotsHeight s"
  "plotsHeight (s\<lparr>verticalScrollBar := vb\<rparr>) = plotsHeight s"
  "plotsHeight (s\<lparr>viewRange := vr\<rparr>) = plotsHeight s"
  "plotsHeight (s\<lparr>update_requests := n\<rparr>) = plotsHeight s"
  "plotsHeight (s\<lparr>cursors := c\<rparr>) = plotsHeight s"
  by (simp_all add: plotsHeight_def)

lemma update_cursors_twice:
  "(case update_cursors spl s of Inl e \<Rightarrow> Inl e | Inr r \<Rightarrow> update_cursors spl r)
     = update_cursors spl (s\<lparr>update_requests := Suc (update_requests s)\<rparr>)"
  by (simp add: update_cursors_def viewport_update_def setSelection_def split: sum.splits)

lemma updateView_settled:
  assumes "samplesPerLine s = Inr spl"
    and "\<not> valueChanged (horizontalScrollBar s)
            (setMaximum (narrow (source_count s - widen (widget_width s - 1) * spl))
               (horizontalScrollBar s))"
    and "\<not> valueChanged (verticalScrollBar s)
            (setMaximum (smax 0 (plotsHeight s - viewport_height s)) (verticalScrollBar s))"
  shows "updateView False s =
     Some (update_cursors spl
             (s\<lparr>viewRange :=
                  \<lparr>minimum = widen (sb_value (horizontalScrollBar s)),
                   maximum = widen (sb_value (horizontalScrollBar s)) + widen (widget_width s) * spl\<rparr>,
                horizontalScrollBar :=
                  setMaximum (narrow (source_count s - widen (widget_width s - 1) * spl))
                    (horizontalScrollBar s),
                verticalScrollBar :=
                  setMaximum (smax 0 (plotsHeight s - viewport_height s)) (verticalScrollBar s)\<rparr>))"
  using assms by (subst updateView.simps) (simp add: Let_def)


lemma valueChanged_same_value:
  "\<not> valueChanged sb sb' \<Longrightarrow> sb_value sb' = sb_value sb"
  by (simp add: valueChanged_def)

lemma updateView_hbar_settled:
  assumes spl: "samplesPerLine s = Inr spl"
    and hb: "\<not> valueChanged (horizontalScrollBar s)
            (setMaximum (narrow (source_count s - widen (widget_width s - 1) * spl))
               (horizontalScrollBar s))"
  shows "updateView False s =
     Some (update_cursors spl
             (s\<lparr>viewRange :=
                  \<lparr>minimum = widen (sb_value (horizontalScrollBar s)),
                   maximum = widen (sb_value (horizontalScrollBar s)) + widen (widget_width s) * spl\<rparr>,
                horizontalScrollBar :=
                  setMaximum (narrow (source_count s - widen (widget_width s - 1) * spl))
                    (horizontalScrollBar s),
                verticalScrollBar :=
                  setMaximum (smax 0 (plotsHeight s - viewport_height s)) (verticalScrollBar s),
                update_requests := update_requests s +
                  (if valueChanged (verticalScrollBar s)
                        (setMaximum (smax 0 (plotsHeight s - viewport_height s)) (verticalScrollBar s))
                   then 1 else 0)\<rparr>))"
proof (cases "valueChanged (verticalScrollBar s)
                (setMaximum (smax 0 (plotsHeight s - viewport_height s)) (verticalScrollBar s))")
  case False
  with updateView_settled [OF spl hb] show ?thesis
    by simp
next
  case True
  note v = valueChanged_same_value [OF hb]
  show ?thesis
    using spl hb True
    by (subst updateView.simps)
      (simp add: Let_def updateView_settled [where spl = spl] v update_cursors_twice
         flip: sum.case_distrib)
qed


lemma updateView_False:
  assumes spl: "samplesPerLine s = Inr spl"
  shows "updateView False s =
     Some (update_cursors spl
             (s\<lparr>viewRange :=
                  \<lparr>minimum = widen (sb_value
                       (setMaximum (narrow (source_count s - widen (widget_width s - 1) * spl))
                          (horizontalScrollBar s))),
                   maximum = widen (sb_value
                       (setMaximum (narrow (source_count s - widen (widget_width s - 1) * spl))
                          (horizontalScrollBar s))) + widen (widget_width s) * spl\<rparr>,
                horizontalScrollBar :=
                  setMaximum (narrow (source_count s - widen (widget_width s - 1) * spl))
                    (horizontalScrollBar s),
                verticalScrollBar :=
                  setMaximum (smax 0 (plotsHeight s - viewport_height s)) (verticalScrollBar s),
                update_requests := update_requests s +
                  (if valueChanged (horizontalScrollBar s)
                        (setMaximum (narrow (source_count s - widen (widget_width s - 1) * spl))
                           (horizontalScrollBar s))
                   then 1 else 0) +
                  (if valueChanged (verticalScrollBar s)
                        (setMaximum (smax 0 (plotsHeight s - viewport_height s)) (verticalScrollBar s))
                   then 1 else 0)\<rparr>))"
proof (cases "valueChanged (horizontalScrollBar s)
                (setMaximum (narrow (source_count s - widen (widget_width s - 1) * spl))
                   (horizontalScrollBar s))")
  case False
  note v = valueChanged_same_value [OF False]
  from updateView_hbar_settled [OF spl False] False show ?thesis
    by (simp add: v)
next
  case True
  show ?thesis
    using spl True
    by (subst updateView.simps)
      (auto simp: Let_def updateView_hbar_settled [where spl = spl] update_cursors_def
         viewport_update_def setSelection_def split: sum.splits)
qed


lemma setValue_unchanged:
  "\<not> valueChanged sb (setValue v sb) \<Longrightarrow> setValue v sb = sb"
  by (simp add: valueChanged_def setValue_def)

lemma updateView_result:
  fixes s :: PlotView and spl :: off_t and reCenter :: bool
  assumes spl: "samplesPerLine s = Inr spl"
  defines "hb1 \<equiv> (if reCenter
              then setValue (narrow (widen (sb_value (horizontalScrollBar s))
                     + cdiv (range_length (viewRange s) - widen (widget_width s) * spl) 2))
                     (horizontalScrollBar s)
              else horizontalScrollBar s)"
  defines "hb \<equiv> setMaximum (narrow (source_count s - widen (widget_width s - 1) * spl)) hb1"
  defines "vb \<equiv> setMaximum (smax 0 (plotsHeight s - viewport_height s)) (verticalScrollBar s)"
  shows "updateView reCenter s =
     Some (update_cursors spl
             (s\<lparr>viewRange :=
                  \<lparr>minimum = widen (sb_value hb),
                   maximum = widen (sb_value hb) + widen (widget_width s) * spl\<rparr>,
                horizontalScrollBar := hb,
                verticalScrollBar := vb,
                update_requests := update_requests s +
                  (if valueChanged (horizontalScrollBar s) hb1 then 1 else 0) +
                  (if valueChanged hb1 hb then 1 else 0) +
                  (if valueChanged (verticalScrollBar s) vb then 1 else 0)\<rparr>))"
proof (cases reCenter)
  case False
  with updateView_False [OF spl] show ?thesis
    by (simp add: hb1_def hb_def vb_def)
next
  case True
  show ?thesis
  proof (cases "valueChanged (horizontalScrollBar s) hb1")
    case changed: True
    then show ?thesis
      using spl True unfolding hb1_def hb_def vb_def
      by (subst updateView.simps)
        (auto simp: Let_def updateView_False [where spl = spl] update_cursors_def
           viewport_update_def setSelection_def range_length_def split: sum.splits)
  next
    case same: False
    then have "hb1 = horizontalScrollBar s"
      using True by (simp add: hb1_def setValue_unchanged)
    then show ?thesis
      using spl True same unfolding hb1_def hb_def vb_def
      by (subst updateView.simps)
        (auto simp: Let_def updateView_False [where spl = spl] update_cursors_def
           viewport_update_def setSelection_def range_length_def valueChanged_same_value
           split: sum.splits)
  qed
qed

lemma updateView_Inr:
  fixes s :: PlotView and spl :: off_t and reCenter :: bool
  assumes "samplesPerLine s = Inr spl" "spl \<noteq> 0" "spl \<noteq> - 1"
  defines "hb1 \<equiv> (if reCenter
              then setValue (narrow (widen (sb_value (horizontalScrollBar s))
                     + cdiv (range_length (viewRange s) - widen (widget_width s) * spl) 2))
                     (horizontalScrollBar s)
              else horizontalScrollBar s)"
  defines "hb \<equiv> setMaximum (narrow (source_count s - widen (widget_width s - 1) * spl)) hb1"
  defines "vb \<equiv> setMaximum (smax 0 (plotsHeight s - viewport_height s)) (verticalScrollBar s)"
  shows "updateView reCenter s =
     Some (Inr (s\<lparr>viewRange :=
                   \<lparr>minimum = widen (sb_value hb),
                    maximum = widen (sb_value hb) + widen (widget_width s) * spl\<rparr>,
                 horizontalScrollBar := hb,
                 verticalScrollBar := vb,
                 cursors := setSelection
                   \<lparr>minimum = narrow (cdiv (minimum (selectedSamples s) - widen (sb_value hb)) spl),
                    maximum = narrow (cdiv (maximum (selectedSamples s) - widen (sb_value hb)) spl)\<rparr>
                   (cursors s),
                 update_requests := Suc (update_requests s +
                   (if valueChanged (horizontalScrollBar s) hb1 then 1 else 0) +
                   (if valueChanged hb1 hb then 1 else 0) +
                   (if valueChanged (verticalScrollBar s) vb then 1 else 0))\<rparr>))"
  unfolding updateView_result [OF assms(1)] hb1_def hb_def vb_def
  using assms(2,3) by (simp add: update_cursors_def checked_div_Inr viewport_update_def)

lemma updateView_zero_spl:
  "samplesPerLine s = Inr 0 \<Longrightarrow> updateView reCenter s = Some (Inl DivisionByZero)"
  by (simp add: updateView_result update_cursors_def checked_div_def)

lemma updateView_returns:
  fixes s :: PlotView and spl :: off_t and reCenter :: bool
  assumes "samplesPerLine s = Inr spl" "spl \<noteq> 0" "spl \<noteq> - 1"
  shows "\<exists>s'. updateView reCenter s = Some (Inr s')
     \<and> horizontalScrollBar s' =
          setMaximum (narrow (source_count s - widen (widget_width s - 1) * spl))
            (if reCenter
             then setValue (narrow (widen (sb_value (horizontalScrollBar s))
                    + cdiv (range_length (viewRange s) - widen (widget_width s) * spl) 2))
                    (horizontalScrollBar s)
             else horizontalScrollBar s)
     \<and> verticalScrollBar s' =
          setMaximum (smax 0 (plotsHeight s - viewport_height s)) (verticalScrollBar s)
     \<and> viewRange s' =
          \<lparr>minimum = widen (sb_value (horizontalScrollBar s')),
           maximum = widen (sb_value (horizontalScrollBar s')) + widen (widget_width s) * spl\<rparr>
     \<and> selection (cursors s') =
          \<lparr>minimum = narrow (cdiv (minimum (selectedSamples s)
                       - widen (sb_value (horizontalScrollBar s'))) spl),
           maximum = narrow (cdiv (maximum (selectedSamples s)
                       - widen (sb_value (horizontalScrollBar s'))) spl)\<rparr>
     \<and> selectedSamples s' = selectedSamples s
     \<and> fftSize s' = fftSize s \<and> zoomLevel s' = zoomLevel s
     \<and> samplesPerLine s' = Inr spl"
  using assms(1) unfolding updateView_Inr [OF assms]
  by (simp add: setSelection_def samplesPerLine_def)

text \<open>Every run of \<^verbatim>\<open>updateView\<close> and of \<^verbatim>\<open>invalidateEvent\<close> ends, in a state or in an error.\<close>

lemma updateView_total: "\<exists>r. updateView reCenter s = Some r"
proof (cases "samplesPerLine s")
  case (Inl e)
  then show ?thesis
    by (subst updateView.simps) simp
next
  case (Inr spl)
  then show ?thesis
    by (simp add: updateView_result)
qed

lemma invalidateEvent_total: "\<exists>r. invalidateEvent s = Some r"
proof -
  let ?hb = "setMinimum 0 (horizontalScrollBar s)"
  let ?first = "if valueChanged (horizontalScrollBar s) ?hb
        then scrollContentsBy (s\<lparr>horizontalScrollBar := ?hb\<rparr>)
        else Some (Inr (s\<lparr>horizontalScrollBar := ?hb\<rparr>))"
  have "\<exists>r1. ?first = Some r1"
    using updateView_total [of False "s\<lparr>horizontalScrollBar := ?hb\<rparr>"]
    by (simp add: scrollContentsBy_def)
  then obtain r1 where r1: "?first = Some r1"
    by blast
  show ?thesis
  proof (cases r1)
    case (Inl e)
    with r1 show ?thesis
      by (simp add: invalidateEvent_def Let_def)
  next
    case (Inr s1)
    let ?hb2 = "setMaximum (narrow (source_count s1)) (horizontalScrollBar s1)"
    from updateView_total [of False "s1\<lparr>horizontalScrollBar := ?hb2\<rparr>"]
    obtain r2 where "updateView False (s1\<lparr>horizontalScrollBar := ?hb2\<rparr>) = Some r2"
      by blast
    with r1 Inr show ?thesis
      by (simp add: invalidateEvent_def Let_def scrollContentsBy_def)
  qed
qed

section \<open>The view range\<close>

lemma samplesPerLine_Inr:
  "samplesPerLine s = Inr spl \<Longrightarrow>
     \<exists>q. spl = widen q \<and> checked_div (fftSize s) (zoomLevel s) = Inr q"
  by (auto simp: samplesPerLine_def split: sum.splits)

lemma sint_pos_nonzero:
  fixes x :: "'a::len word"
  assumes "1 \<le> sint x"
  shows "x \<noteq> 0" "x \<noteq> - 1"
  using assms by auto

lemmas word_eval =
  cdiv_def widen_def narrow_def signed_divide_int_def range_length_def
  smax_def smin_def word_sless_alt word_sle_eq

lemmas scrollbar_eval =
  setMaximum_def setMinimum_def setRange_def setValue_def bound_def valueChanged_def Let_def

lemma nonzero_64: "(64 :: off_t) \<noteq> 0" "(64 :: off_t) \<noteq> - 1"
  by simp_all

lemma samplesPerLine_scenario: "samplesPerLine scenario = Inr 64"
  by (simp add: scenario_def samplesPerLine_def checked_div_def cdiv_def widen_def
      signed_divide_int_def)

lemma samplesPerLine_scrolled_past: "samplesPerLine scrolled_past = Inr 64"
  using samplesPerLine_scenario by (simp add: scrolled_past_def samplesPerLine_def)

lemma updateView_scrolled_past:
  "updateView False scrolled_past =
     Some (Inr (scrolled_past\<lparr>viewRange := \<lparr>minimum = 424, maximum = 1064\<rparr>,
            horizontalScrollBar := \<lparr>sb_minimum = 0, sb_maximum = 424, sb_value = 424, singleStep = 1, pageStep = 10\<rparr>,
            verticalScrollBar := \<lparr>sb_minimum = 0, sb_maximum = 0, sb_value = 0, singleStep = 1, pageStep = 10\<rparr>,
            cursors := \<lparr>selection = \<lparr>minimum = - 6, maximum = - 6\<rparr>, segmentCount = 1\<rparr>,
            update_requests := 2\<rparr>))"
proof -
  have fields: "horizontalScrollBar scrolled_past =
      \<lparr>sb_minimum = 0, sb_maximum = 1000, sb_value = 500, singleStep = 1, pageStep = 10\<rparr>"
    "verticalScrollBar scrolled_past = default_scrollbar"
    "widget_width scrolled_past = 10" "source_count scrolled_past = 1000"
    "viewport_height scrolled_past = 100" "plotsHeight scrolled_past = 0"
    "selectedSamples scrolled_past = \<lparr>minimum = 0, maximum = 0\<rparr>"
    "cursors scrolled_past = \<lparr>selection = \<lparr>minimum = 2, maximum = 5\<rparr>, segmentCount = 1\<rparr>"
    "update_requests scrolled_past = 0"
    by (simp_all add: scrolled_past_def scenario_def plotsHeight_def)
  show ?thesis
    unfolding updateView_Inr [OF samplesPerLine_scrolled_past nonzero_64]
    by (simp add: fields scrollbar_eval word_eval setSelection_def default_scrollbar_def)
qed

lemma samplesPerLine_framed: "samplesPerLine framed = Inr 64"
  using samplesPerLine_scenario by (simp add: framed_def samplesPerLine_def)

lemma updateView_framed:
  "updateView False framed =
     Some (Inr (framed\<lparr>viewRange := \<lparr>minimum = 0, maximum = 768\<rparr>,
            horizontalScrollBar := \<lparr>sb_minimum = 0, sb_maximum = 296, sb_value = 0, singleStep = 1, pageStep = 10\<rparr>,
            verticalScrollBar := \<lparr>sb_minimum = 0, sb_maximum = 0, sb_value = 0, singleStep = 1, pageStep = 10\<rparr>,
            cursors := \<lparr>selection = \<lparr>minimum = 0, maximum = 0\<rparr>, segmentCount = 1\<rparr>,
            update_requests := 1\<rparr>))"
proof -
  have fields: "horizontalScrollBar framed = default_scrollbar"
    "verticalScrollBar framed = default_scrollbar"
    "widget_width framed = 12" "source_count framed = 1000"
    "viewport_height framed = 100" "plotsHeight framed = 0"
    "selectedSamples framed = \<lparr>minimum = 0, maximum = 0\<rparr>"
    "cursors framed = \<lparr>selection = \<lparr>minimum = 2, maximum = 5\<rparr>, segmentCount = 1\<rparr>"
    "update_requests framed = 0"
    by (simp_all add: framed_def scenario_def plotsHeight_def)
  show ?thesis
    unfolding updateView_Inr [OF samplesPerLine_framed nonzero_64]
    by (simp add: fields scrollbar_eval word_eval setSelection_def default_scrollbar_def)
qed

text \<open>
  C1, as stated, fails in two ways. The view range does not start at the scroll position
  that \<^verbatim>\<open>updateView(false)\<close> finds when the new scroll range excludes that position: at
  position 500 of a source of 1000 samples, ten columns of 64 samples wide, the new
  maximum is 424, the scroll bar moves to 424 and runs \<^verbatim>\<open>updateView\<close> again, and the view
  range starts at 424. And the length of the view range is taken from \<^verbatim>\<open>width()\<close>, the
  width of the scroll area, not from the width of its viewport: in a scroll area of 12
  pixels around a viewport of 10, the view range is 768 samples long, not 640.
\<close>

theorem updateView_false_viewRange_counterexample:
  "samplesPerLine scrolled_past = Inr 64
   \<and> sint (sb_value (horizontalScrollBar scrolled_past)) = 500
   \<and> updateView False scrolled_past \<noteq> None
   \<and> \<not> isl (the (updateView False scrolled_past))
   \<and> sint (minimum (viewRange (projr (the (updateView False scrolled_past))))) = 424
   \<and> samplesPerLine framed = Inr 64
   \<and> sint (viewport_width framed) = 10
   \<and> \<not> isl (the (updateView False framed))
   \<and> sint (range_length (viewRange (projr (the (updateView False framed))))) = 768
   \<and> sint (range_length (viewRange (projr (the (updateView False framed)))))
        \<noteq> sint (viewport_width framed) * 64"
proof -
  have "sint (sb_value (horizontalScrollBar scrolled_past)) = 500"
    and "sint (viewport_width framed) = 10"
    by (simp_all add: scrolled_past_def framed_def scenario_def)
  moreover have "updateView False scrolled_past \<noteq> None"
    and "\<not> isl (the (updateView False scrolled_past))"
    and "sint (minimum (viewRange (projr (the (updateView False scrolled_past))))) = 424"
    by (simp_all add: updateView_scrolled_past)
  moreover have "\<not> isl (the (updateView False framed))"
    and "sint (range_length (viewRange (projr (the (updateView False framed))))) = 768"
    by (simp_all add: updateView_framed range_length_def)
  ultimately show ?thesis
    using samplesPerLine_scrolled_past samplesPerLine_framed by simp
qed

text \<open>
  C1, amended. In a state whose samples per column are at least 1, \<^verbatim>\<open>updateView(false)\<close>
  returns, and the view range it leaves starts at the horizontal scroll position it
  leaves and has the length of \<^verbatim>\<open>width()\<close>, the width of the scroll area in pixels,
  times the samples per column. The scroll position it leaves is the one it found
  whenever that lies between the old minimum and the new maximum of the scroll bar.
\<close>

theorem updateView_false_viewRange:
  assumes "samplesPerLine s = Inr spl" "1 \<le> sint spl"
  shows "\<exists>s'. updateView False s = Some (Inr s') \<and>
           sint (minimum (viewRange s')) = sint (sb_value (horizontalScrollBar s')) \<and>
           sint (range_length (viewRange s')) = sint (widget_width s) * sint spl \<and>
           (sint (sb_minimum (horizontalScrollBar s)) \<le> sint (sb_value (horizontalScrollBar s)) \<and>
            sint (sb_value (horizontalScrollBar s)) \<le> sint (sb_maximum (horizontalScrollBar s'))
            \<longrightarrow> sb_value (horizontalScrollBar s') = sb_value (horizontalScrollBar s))"
proof -
  let ?hb = "horizontalScrollBar s"
  let ?M = "narrow (source_count s - widen (widget_width s - 1) * spl)"
  from assms(1) obtain q where q: "spl = widen q"
    using samplesPerLine_Inr by blast
  from assms(2) have nz: "spl \<noteq> 0" "spl \<noteq> - 1"
    by (rule sint_pos_nonzero)+
  from updateView_returns [OF assms(1) nz, of False] obtain s' where
    s': "updateView False s = Some (Inr s')"
      "horizontalScrollBar s' = setMaximum ?M ?hb"
      "viewRange s' =
         \<lparr>minimum = widen (sb_value (horizontalScrollBar s')),
          maximum = widen (sb_value (horizontalScrollBar s')) + widen (widget_width s) * spl\<rparr>"
    by auto
  have start: "sint (minimum (viewRange s')) = sint (sb_value (horizontalScrollBar s'))"
    by (simp add: s'(3))
  have len: "sint (range_length (viewRange s')) = sint (widget_width s) * sint spl"
    by (simp add: s'(3) range_length_def q sint_mult_widen)
  have kept: "sb_value (horizontalScrollBar s') = sb_value ?hb"
    if v: "sint (sb_minimum ?hb) \<le> sint (sb_value ?hb)"
      "sint (sb_value ?hb) \<le> sint (sb_maximum (horizontalScrollBar s'))"
  proof -
    have "sint (sb_value ?hb) \<le> sint ?M"
      using v(2) by (simp add: s'(2))
    moreover have "sint (smin (sb_minimum ?hb) ?M) \<le> sint (sb_value ?hb)"
      using v(1) by (simp add: sint_smin)
    ultimately have "sb_value (setRange (smin (sb_minimum ?hb) ?M) ?M ?hb) = sb_value ?hb"
      by (intro setRange_value_kept)
    then show ?thesis
      by (simp add: s'(2) setMaximum_def)
  qed
  from s'(1) start len kept show ?thesis
    by blast
qed

theorem updateView_false_viewRange_witness:
  "samplesPerLine scenario = Inr 64 \<and> 1 \<le> sint (64 :: off_t) \<and>
   (\<exists>s'. updateView False scenario = Some (Inr s') \<and>
      sint (minimum (viewRange s')) = sint (sb_value (horizontalScrollBar s')) \<and>
      sint (range_length (viewRange s')) = 640)"
proof -
  have spl: "samplesPerLine scenario = Inr 64"
    by (rule samplesPerLine_scenario)
  have pos: "1 \<le> sint (64 :: off_t)"
    by simp
  from updateView_false_viewRange [OF spl pos] obtain s' where
    "updateView False scenario = Some (Inr s')"
    "sint (minimum (viewRange s')) = sint (sb_value (horizontalScrollBar s'))"
    "sint (range_length (viewRange s')) = sint (widget_width scenario) * sint (64 :: off_t)"
    by blast
  with spl pos show ?thesis
    by (simp add: scenario_def)
qed

section \<open>The selection\<close>

lemma int_prod_bound63:
  fixes a b :: int
  assumes "\<bar>a\<bar> < 2 ^ 32" "\<bar>b\<bar> \<le> 2 ^ 31"
  shows "\<bar>a * b\<bar> < 2 ^ 63"
proof -
  have "\<bar>a\<bar> * \<bar>b\<bar> \<le> (2 ^ 32 - 1) * 2 ^ 31"
    using assms by (intro mult_mono) simp_all
  then show ?thesis by (simp add: abs_mult)
qed


lemma cursorsMoved_Inr:
  assumes "samplesPerLine s = Inr spl"
  shows "cursorsMoved s = Inr (viewport_update (emit (TimeSelectionChanged
            (float_div
               (float_round (real_of_int (sint ((widen (sb_value (horizontalScrollBar s)) + widen (maximum (selection (cursors s))) * spl)
                 - (widen (sb_value (horizontalScrollBar s)) + widen (minimum (selection (cursors s))) * spl)))))
               (float_round (source_rate s))))
          (s\<lparr>selectedSamples :=
              \<lparr>minimum = widen (sb_value (horizontalScrollBar s)) + widen (minimum (selection (cursors s))) * spl,
               maximum = widen (sb_value (horizontalScrollBar s)) + widen (maximum (selection (cursors s))) * spl\<rparr>\<rparr>)))"
  using assms by (simp add: cursorsMoved_def Let_def range_length_def)

lemma selection_length:
  "sint ((widen v + widen b * widen q) - (widen v + widen a * widen q)) = (sint b - sint a) * sint q"
proof -
  have "\<bar>sint b - sint a\<bar> < 2 ^ 32"
    using sint32_abs [of a] sint32_abs [of b] sint_lt [of a] sint_lt [of b] by simp
  then have "\<bar>(sint b - sint a) * sint q\<bar> < 2 ^ 63"
    using sint32_abs [of q] by (rule int_prod_bound63)
  then have "- (2 ^ 63) \<le> sint (widen v + widen b * widen q) - sint (widen v + widen a * widen q)"
    "sint (widen v + widen b * widen q) - sint (widen v + widen a * widen q) < 2 ^ 63"
    by (simp_all add: sint_add_mult_widen algebra_simps)
  then have "sint ((widen v + widen b * widen q) - (widen v + widen a * widen q))
      = sint (widen v + widen b * widen q) - sint (widen v + widen a * widen q)"
    by (rule sint64_diff)
  then show ?thesis
    by (simp add: sint_add_mult_widen algebra_simps)
qed

lemma selection_length':
  "sint (widen b * widen q - widen a * widen q) = (sint b - sint a) * sint q"
  using selection_length [of 0 b q a] by (simp add: widen_def)


lemma float_time_192: "float_div (float_round 192) (float_round 1000) = Finite (12884902 / 2 ^ 26)"
  by code_simp

lemma float_time_64: "float_div (float_round 64) (float_round 1000) = Finite (8589935 / 2 ^ 27)"
  by code_simp

lemma float_time_16777217: "float_div (float_round 16777217) (float_round 1) = Finite 16777216"
  by code_simp

lemma samplesPerLine_fine_selection: "samplesPerLine fine_selection = Inr 1"
  by (simp add: fine_selection_def scenario_def samplesPerLine_def checked_div_def cdiv_def
      widen_def signed_divide_int_def)

lemma cursorsMoved_scenario:
  "cursorsMoved scenario =
     Inr (scenario\<lparr>selectedSamples := \<lparr>minimum = 128, maximum = 320\<rparr>,
            emitted := [TimeSelectionChanged (Finite (12884902 / 2 ^ 26))],
            update_requests := 1\<rparr>)"
  unfolding cursorsMoved_Inr [OF samplesPerLine_scenario]
  by (simp add: viewport_update_def emit_def scenario_def default_scrollbar_def widen_def
      float_time_192 del: of_int_sint)

lemma cursorsMoved_fine_selection:
  "cursorsMoved fine_selection =
     Inr (fine_selection\<lparr>selectedSamples := \<lparr>minimum = 0, maximum = 16777217\<rparr>,
            emitted := [TimeSelectionChanged (Finite 16777216)],
            update_requests := 1\<rparr>)"
  unfolding cursorsMoved_Inr [OF samplesPerLine_fine_selection]
  by (simp add: viewport_update_def emit_def fine_selection_def scenario_def default_scrollbar_def
      widen_def float_time_16777217 del: of_int_sint)

text \<open>
  C5, as stated, fails in the reported time. The time is a \<^verbatim>\<open>float\<close>, the quotient of the
  sample count and the rate in single precision: in the scenario it is
  \<open>12884902 / 2 ^ 26\<close>, the \<^verbatim>\<open>float\<close> next to 0.192, and not 0.192. A selection of
  16777217 samples at rate 1 is reported as 16777216 seconds.
\<close>

theorem cursorsMoved_selection_counterexample:
  "emitted (projr (cursorsMoved scenario)) = [TimeSelectionChanged (Finite (12884902 / 2 ^ 26))]
   \<and> Finite (12884902 / 2 ^ 26) \<noteq> Finite 0.192
   \<and> sint (range_length (selectedSamples (projr (cursorsMoved fine_selection)))) = 16777217
   \<and> source_rate fine_selection = 1
   \<and> emitted (projr (cursorsMoved fine_selection)) = [TimeSelectionChanged (Finite 16777216)]
   \<and> Finite 16777216 \<noteq> Finite (16777217 / 1)"
  unfolding cursorsMoved_scenario cursorsMoved_fine_selection
  by (simp add: range_length_def fine_selection_def scenario_def)

text \<open>
  C5, amended. \<^verbatim>\<open>cursorsMoved()\<close> sets each end of the absolute selection to the scroll
  position plus the pixel cursor's column times the samples per column, and reports the
  quotient of the length of the selection and the sample rate as \<^verbatim>\<open>float\<close> computes it:
  both are rounded to single precision, and so is their quotient. In the scenario (1000
  samples at rate 1000, FFT size 64, zoom 1, scroll position 0, cursors at columns 2 and
  5) the selection is from 128 to 320 and the reported time is \<open>12884902 / 2 ^ 26\<close>,
  which is within \<open>1 / 2 ^ 27\<close> of 0.192.
\<close>

theorem cursorsMoved_selection:
  "(samplesPerLine s = Inr spl \<longrightarrow>
      (\<exists>s'. cursorsMoved s = Inr s' \<and>
         sint (minimum (selectedSamples s')) =
           sint (sb_value (horizontalScrollBar s)) + sint (minimum (selection (cursors s))) * sint spl \<and>
         sint (maximum (selectedSamples s')) =
           sint (sb_value (horizontalScrollBar s)) + sint (maximum (selection (cursors s))) * sint spl \<and>
         sint (range_length (selectedSamples s')) =
           (sint (maximum (selection (cursors s))) - sint (minimum (selection (cursors s)))) * sint spl \<and>
         emitted s' = emitted s @
           [TimeSelectionChanged
              (float_div (float_round (real_of_int (sint (range_length (selectedSamples s')))))
                 (float_round (source_rate s)))]))
   \<and> (\<exists>s'. cursorsMoved scenario = Inr s' \<and>
         sint (minimum (selectedSamples s')) = 128 \<and>
         sint (maximum (selectedSamples s')) = 320 \<and>
         emitted s' = [TimeSelectionChanged (Finite (12884902 / 2 ^ 26))])
   \<and> \<bar>12884902 / 2 ^ 26 - (0.192 :: real)\<bar> \<le> 1 / 2 ^ 27"
proof (intro conjI impI)
  assume spl: "samplesPerLine s = Inr spl"
  then obtain q where q: "spl = widen q"
    using samplesPerLine_Inr by blast
  show "\<exists>s'. cursorsMoved s = Inr s' \<and>
         sint (minimum (selectedSamples s')) =
           sint (sb_value (horizontalScrollBar s)) + sint (minimum (selection (cursors s))) * sint spl \<and>
         sint (maximum (selectedSamples s')) =
           sint (sb_value (horizontalScrollBar s)) + sint (maximum (selection (cursors s))) * sint spl \<and>
         sint (range_length (selectedSamples s')) =
           (sint (maximum (selection (cursors s))) - sint (minimum (selection (cursors s)))) * sint spl \<and>
         emitted s' = emitted s @
           [TimeSelectionChanged
              (float_div (float_round (real_of_int (sint (range_length (selectedSamples s')))))
                 (float_round (source_rate s)))]"
    unfolding cursorsMoved_Inr [OF spl] q
    by (simp add: viewport_update_def emit_def sint_add_mult_widen range_length_def selection_length'
        del: of_int_sint)
next
  show "\<exists>s'. cursorsMoved scenario = Inr s' \<and>
         sint (minimum (selectedSamples s')) = 128 \<and>
         sint (maximum (selectedSamples s')) = 320 \<and>
         emitted s' = [TimeSelectionChanged (Finite (12884902 / 2 ^ 26))]"
    unfolding cursorsMoved_scenario by simp
next
  show "\<bar>12884902 / 2 ^ 26 - (0.192 :: real)\<bar> \<le> 1 / 2 ^ 27"
    by simp
qed

lemma samplesPerLine_scrolled: "samplesPerLine scrolled = Inr 32"
  by (simp add: scrolled_def scenario_def samplesPerLine_def checked_div_def cdiv_def widen_def
      signed_divide_int_def)

theorem cursorsMoved_selection_witness:
  "samplesPerLine scrolled = Inr 32 \<and>
   (\<exists>s'. cursorsMoved scrolled = Inr s' \<and>
      sint (minimum (selectedSamples s')) = 132 \<and>
      sint (maximum (selectedSamples s')) = 196 \<and>
      sint (range_length (selectedSamples s')) = 64 \<and>
      emitted s' = [TimeSelectionChanged (Finite (8589935 / 2 ^ 27))])"
proof -
  have spl: "samplesPerLine scrolled = Inr 32"
    by (rule samplesPerLine_scrolled)
  from cursorsMoved_selection [of scrolled 32, THEN conjunct1, rule_format, OF spl]
  obtain s' where "cursorsMoved scrolled = Inr s'"
    "sint (minimum (selectedSamples s')) = 132"
    "sint (maximum (selectedSamples s')) = 196"
    "sint (range_length (selectedSamples s')) = 64"
    "emitted s' = [TimeSelectionChanged
       (float_div (float_round (real_of_int (sint (range_length (selectedSamples s')))))
          (float_round 1000))]"
    by (auto simp: scrolled_def scenario_def simp del: of_int_sint)
  with spl show ?thesis
    by (simp add: float_time_64 del: of_int_sint)
qed

section \<open>Enabling the cursors\<close>

lemma sdiv_pos_divisor:
  fixes a b :: int
  assumes "0 < b"
  shows "a sdiv b = (if 0 \<le> a then a div b else - ((- a) div b))"
  using assms by (simp add: signed_divide_int_def sgn_if)

lemma sdiv_pos_bounds:
  fixes a b :: int
  assumes "0 < b"
  shows "(0 \<le> a \<longrightarrow> 0 \<le> a sdiv b \<and> a sdiv b \<le> a) \<and> (a \<le> 0 \<longrightarrow> a \<le> a sdiv b \<and> a sdiv b \<le> 0)"
proof -
  have "0 \<le> a \<Longrightarrow> a div b \<le> a" "0 \<le> a \<Longrightarrow> 0 \<le> a div b"
    using assms zdiv_mono2 [of a 1 b] by (simp_all add: pos_imp_zdiv_nonneg_iff)
  moreover have "a \<le> 0 \<Longrightarrow> (- a) div b \<le> - a" "a \<le> 0 \<Longrightarrow> 0 \<le> (- a) div b"
    using assms zdiv_mono2 [of "- a" 1 b] by (simp_all add: pos_imp_zdiv_nonneg_iff)
  ultimately show ?thesis
    unfolding sdiv_pos_divisor [OF assms] by auto
qed

lemma sint_cdiv:
  fixes a b :: "'a::len word"
  assumes "0 < sint b"
  shows "sint (cdiv a b) = sint a sdiv sint b"
proof -
  have "- (2 ^ (LENGTH('a) - 1)) \<le> sint a sdiv sint b \<and> sint a sdiv sint b < 2 ^ (LENGTH('a) - 1)"
    using sdiv_pos_bounds [OF assms, of "sint a"] sint_ge [of a] sint_lt [of a]
    by (cases "0 \<le> sint a") auto
  then have "signed_take_bit (LENGTH('a) - 1) (sint a sdiv sint b) = sint a sdiv sint b"
    by (intro signed_take_bit_int_eq_self) simp_all
  then show ?thesis
    by (simp add: cdiv_def sint_sbintrunc')
qed

lemma viewport_rect_simps:
  "left (viewport_rect s) = 0"
  "right (viewport_rect s) = viewport_width s - 1"
  "width (viewport_rect s) = viewport_width s"
  by (simp_all add: viewport_rect_def QRect_xywh_def left_def right_def width_def)

lemma enableCursors_True:
  "enableCursors True s =
     s\<lparr>cursorsEnabled := True,
       cursors := (cursors s)\<lparr>selection :=
          \<lparr>minimum = left (viewport_rect s) + cdiv (width (viewport_rect s)) 3,
           maximum = right (viewport_rect s) - cdiv (width (viewport_rect s)) 3\<rparr>\<rparr>,
       update_requests := Suc (update_requests s)\<rparr>"
  by (simp add: enableCursors_def Let_def setSelection_def viewport_update_def viewport_rect_def)

text \<open>
  C10. \<^verbatim>\<open>enableCursors(true)\<close> sets the pixel selection to the middle third of the
  viewport: from the left edge plus a third of the width to the right edge minus a third
  of the width, the third being the truncated quotient; for a viewport of \<open>w \<ge> 0\<close>
  pixels this is from \<open>w div 3\<close> to \<open>w - 1 - w div 3\<close>. \<^verbatim>\<open>enableCursors(false)\<close> clears
  the flag and requests a repaint, and leaves the selections as they are.
\<close>

theorem enableCursors_middle_third:
  "selection (cursors (enableCursors True s)) =
     \<lparr>minimum = left (viewport_rect s) + cdiv (width (viewport_rect s)) 3,
      maximum = right (viewport_rect s) - cdiv (width (viewport_rect s)) 3\<rparr>
   \<and> (0 \<le> sint (viewport_width s) \<longrightarrow>
        sint (minimum (selection (cursors (enableCursors True s)))) = sint (viewport_width s) div 3 \<and>
        sint (maximum (selection (cursors (enableCursors True s)))) =
          (sint (viewport_width s) - 1) - sint (viewport_width s) div 3)
   \<and> cursorsEnabled (enableCursors True s)
   \<and> enableCursors False s =
        s\<lparr>cursorsEnabled := False, update_requests := Suc (update_requests s)\<rparr>
   \<and> cursors (enableCursors False s) = cursors s
   \<and> selectedSamples (enableCursors False s) = selectedSamples s"
proof (intro conjI impI)
  show "selection (cursors (enableCursors True s)) =
     \<lparr>minimum = left (viewport_rect s) + cdiv (width (viewport_rect s)) 3,
      maximum = right (viewport_rect s) - cdiv (width (viewport_rect s)) 3\<rparr>"
    by (simp add: enableCursors_True)
next
  assume w: "0 \<le> sint (viewport_width s)"
  let ?w = "viewport_width s"
  have three: "0 < sint (3 :: cint)" by simp
  have m: "sint (cdiv ?w 3) = sint ?w div 3"
    using sint_cdiv [OF three, of ?w] w by (simp add: sdiv_pos_divisor)
  have m_bounds: "0 \<le> sint ?w div 3" "sint ?w div 3 \<le> sint ?w"
    using w by simp_all
  have w1: "sint (?w - 1) = sint ?w - 1"
    using w sint_lt [of ?w] by (intro sint32_diff [of ?w 1, simplified]) simp_all
  have "sint (?w - 1 - cdiv ?w 3) = sint (?w - 1) - sint (cdiv ?w 3)"
    using w m m_bounds w1 sint_lt [of ?w] by (intro sint32_diff) simp_all
  then show "sint (maximum (selection (cursors (enableCursors True s)))) =
      (sint ?w - 1) - sint ?w div 3"
    by (simp add: enableCursors_True viewport_rect_simps w1 m)
  show "sint (minimum (selection (cursors (enableCursors True s)))) = sint ?w div 3"
    by (simp add: enableCursors_True viewport_rect_simps m)
next
  show "cursorsEnabled (enableCursors True s)"
    by (simp add: enableCursors_True)
next
  show "enableCursors False s =
        s\<lparr>cursorsEnabled := False, update_requests := Suc (update_requests s)\<rparr>"
    by (simp add: enableCursors_def viewport_update_def)
  then show "cursors (enableCursors False s) = cursors s"
    and "selectedSamples (enableCursors False s) = selectedSamples s"
    by simp_all
qed

theorem enableCursors_middle_third_witness:
  "0 \<le> sint (viewport_width scenario) \<and>
   sint (minimum (selection (cursors (enableCursors True scenario)))) = 3 \<and>
   sint (maximum (selection (cursors (enableCursors True scenario)))) = 6"
proof -
  have w: "sint (viewport_width scenario) = 10"
    by (simp add: scenario_def)
  then have nonneg: "0 \<le> sint (viewport_width scenario)"
    by simp
  from enableCursors_middle_third [of scenario, THEN conjunct2, THEN conjunct1, rule_format, OF nonneg]
  show ?thesis
    by (simp add: w)
qed

section \<open>The horizontal scroll range\<close>

lemma samplesPerLine_empty_source: "samplesPerLine empty_source = Inr 64"
  using samplesPerLine_scenario by (simp add: empty_source_def samplesPerLine_def)

lemma updateView_empty_source:
  "updateView False empty_source =
     Some (Inr (empty_source\<lparr>viewRange := \<lparr>minimum = - 576, maximum = 64\<rparr>,
            horizontalScrollBar := \<lparr>sb_minimum = - 576, sb_maximum = - 576, sb_value = - 576, singleStep = 1, pageStep = 10\<rparr>,
            verticalScrollBar := \<lparr>sb_minimum = 0, sb_maximum = 0, sb_value = 0, singleStep = 1, pageStep = 10\<rparr>,
            cursors := \<lparr>selection = \<lparr>minimum = 9, maximum = 9\<rparr>, segmentCount = 1\<rparr>,
            update_requests := 2\<rparr>))"
proof -
  have fields: "horizontalScrollBar empty_source = default_scrollbar"
    "verticalScrollBar empty_source = default_scrollbar"
    "widget_width empty_source = 10" "source_count empty_source = 0"
    "viewport_height empty_source = 100" "plotsHeight empty_source = 0"
    "selectedSamples empty_source = \<lparr>minimum = 0, maximum = 0\<rparr>"
    "cursors empty_source = \<lparr>selection = \<lparr>minimum = 2, maximum = 5\<rparr>, segmentCount = 1\<rparr>"
    "update_requests empty_source = 0"
    by (simp_all add: empty_source_def scenario_def plotsHeight_def)
  show ?thesis
    unfolding updateView_Inr [OF samplesPerLine_empty_source nonzero_64]
    by (simp add: fields scrollbar_eval word_eval setSelection_def default_scrollbar_def)
qed

lemma samplesPerLine_zero_width: "samplesPerLine zero_width = Inr 64"
  using samplesPerLine_scenario by (simp add: zero_width_def samplesPerLine_def)

lemma updateView_zero_width:
  "updateView False zero_width =
     Some (Inr (zero_width\<lparr>viewRange := \<lparr>minimum = 0, maximum = 0\<rparr>,
            horizontalScrollBar := \<lparr>sb_minimum = 0, sb_maximum = 1064, sb_value = 0, singleStep = 1, pageStep = 10\<rparr>,
            verticalScrollBar := \<lparr>sb_minimum = 0, sb_maximum = 0, sb_value = 0, singleStep = 1, pageStep = 10\<rparr>,
            cursors := \<lparr>selection = \<lparr>minimum = 0, maximum = 0\<rparr>, segmentCount = 1\<rparr>,
            update_requests := 1\<rparr>))"
proof -
  have fields: "horizontalScrollBar zero_width = default_scrollbar"
    "verticalScrollBar zero_width = default_scrollbar"
    "widget_width zero_width = 0" "source_count zero_width = 1000"
    "viewport_height zero_width = 100" "plotsHeight zero_width = 0"
    "selectedSamples zero_width = \<lparr>minimum = 0, maximum = 0\<rparr>"
    "cursors zero_width = \<lparr>selection = \<lparr>minimum = 2, maximum = 5\<rparr>, segmentCount = 1\<rparr>"
    "update_requests zero_width = 0"
    by (simp_all add: zero_width_def scenario_def plotsHeight_def)
  show ?thesis
    unfolding updateView_Inr [OF samplesPerLine_zero_width nonzero_64]
    by (simp add: fields scrollbar_eval word_eval setSelection_def default_scrollbar_def)
qed

text \<open>
  C2, as stated, fails. On a source without samples the horizontal maximum is
  \<open>0 - 9 * 64 = - 576\<close>, not \<open>max 0 (- 576)\<close>: line 279 passes the difference to
  \<^verbatim>\<open>setMaximum\<close> as it is, where line 281 bounds the vertical maximum by
  \<^verbatim>\<open>std::max(0, ...)\<close>. On a widget of width 0 the maximum is \<open>1000 + 64\<close>, above the
  sample count 1000.
\<close>


theorem updateView_hmax_counterexample:
  "sint (sb_maximum (horizontalScrollBar (projr (the (updateView False empty_source))))) = - 576
   \<and> sint (sb_maximum (horizontalScrollBar (projr (the (updateView False empty_source)))))
       \<noteq> max 0 (sint (source_count empty_source) - (sint (widget_width empty_source) - 1) * 64)
   \<and> sint (sb_maximum (horizontalScrollBar (projr (the (updateView False zero_width))))) = 1064
   \<and> sint (source_count zero_width) = 1000"
  unfolding updateView_empty_source updateView_zero_width
  by (simp add: empty_source_def zero_width_def scenario_def)

text \<open>
  C2, amended. After every \<^verbatim>\<open>updateView\<close> call in a state with at least one sample per
  column and a width that is not negative: when the sample count minus
  \<open>(width - 1)\<close> times the samples per column is not negative and fits a scroll bar's
  32-bit value, the horizontal maximum is that number, which is
  \<open>max 0\<close> of it; it is not negative, and from width 1 on it does not exceed the
  sample count.
\<close>


theorem updateView_hmax:
  assumes "samplesPerLine s = Inr spl" "1 \<le> sint spl" "0 \<le> sint (widget_width s)"
    and "0 \<le> sint (source_count s) - (sint (widget_width s) - 1) * sint spl"
    and "sint (source_count s) - (sint (widget_width s) - 1) * sint spl < 2 ^ 31"
  shows "\<exists>s'. updateView reCenter s = Some (Inr s') \<and>
           sint (sb_maximum (horizontalScrollBar s')) =
             max 0 (sint (source_count s) - (sint (widget_width s) - 1) * sint spl) \<and>
           0 \<le> sint (sb_maximum (horizontalScrollBar s')) \<and>
           (1 \<le> sint (widget_width s) \<longrightarrow>
              sint (sb_maximum (horizontalScrollBar s')) \<le> sint (source_count s))"
proof -
  let ?w = "widget_width s"
  let ?m = "sint (source_count s) - (sint ?w - 1) * sint spl"
  from assms(1) obtain q where q: "spl = widen q"
    using samplesPerLine_Inr by blast
  from assms(2) have nz: "spl \<noteq> 0" "spl \<noteq> - 1" by auto
  have w1: "sint (?w - 1) = sint ?w - 1"
    using assms(3) sint_lt [of ?w] by (intro sint32_diff [of ?w 1, simplified]) simp_all
  have prod: "sint (widen (?w - 1) * spl) = (sint ?w - 1) * sint spl"
    by (simp add: q sint_mult_widen w1)
  have "sint (source_count s - widen (?w - 1) * spl) = signed_take_bit (63::nat) ?m"
    by (simp add: sint_diff64 prod)
  also have "\<dots> = ?m"
    using assms(4,5) by (intro stb63) simp_all
  finally have M: "sint (narrow (source_count s - widen (?w - 1) * spl)) = ?m"
    using assms(4,5) by (simp add: sint_narrow_fits)
  from updateView_returns [OF assms(1) nz, of reCenter] obtain s' where
    s': "updateView reCenter s = Some (Inr s')"
      "horizontalScrollBar s' =
         setMaximum (narrow (source_count s - widen (?w - 1) * spl))
           (if reCenter
            then setValue (narrow (widen (sb_value (horizontalScrollBar s))
                   + cdiv (range_length (viewRange s) - widen ?w * spl) 2))
                   (horizontalScrollBar s)
            else horizontalScrollBar s)"
    by blast
  have hmax: "sint (sb_maximum (horizontalScrollBar s')) = ?m"
    by (simp add: s'(2) M)
  have "1 \<le> sint ?w \<Longrightarrow> ?m \<le> sint (source_count s)"
    using assms(2) by simp
  with hmax assms(4) s'(1) show ?thesis
    by auto
qed

theorem updateView_hmax_witness:
  "samplesPerLine scenario = Inr 64 \<and> 1 \<le> sint (64 :: off_t) \<and>
   0 \<le> sint (widget_width scenario) \<and>
   0 \<le> sint (source_count scenario) - (sint (widget_width scenario) - 1) * sint (64 :: off_t) \<and>
   sint (source_count scenario) - (sint (widget_width scenario) - 1) * sint (64 :: off_t) < 2 ^ 31 \<and>
   (\<exists>s'. updateView True scenario = Some (Inr s') \<and>
      sint (sb_maximum (horizontalScrollBar s')) = 424 \<and> 424 \<le> sint (source_count scenario))"
proof -
  have h1: "samplesPerLine scenario = Inr 64"
    by (rule samplesPerLine_scenario)
  have h2: "1 \<le> sint (64 :: off_t)"
    by simp
  have h3: "0 \<le> sint (widget_width scenario)"
    by (simp add: scenario_def)
  have h4: "0 \<le> sint (source_count scenario) - (sint (widget_width scenario) - 1) * sint (64 :: off_t)"
    by (simp add: scenario_def)
  have h5: "sint (source_count scenario) - (sint (widget_width scenario) - 1) * sint (64 :: off_t) < 2 ^ 31"
    by (simp add: scenario_def)
  have vals: "sint (source_count scenario) = 1000" "sint (widget_width scenario) = 10"
    by (simp_all add: scenario_def)
  from updateView_hmax [OF h1 h2 h3 h4 h5, of True] h1 h2 h3 h4 h5 show ?thesis
    by (auto simp: vals)
qed

section \<open>Invalidation\<close>

lemma setRange_kept:
  assumes "sint mn \<le> sint (sb_value sb)" "sint (sb_value sb) \<le> sint mx"
  shows "setRange mn mx sb = sb\<lparr>sb_minimum := mn, sb_maximum := smax mn mx\<rparr>"
proof -
  have "bound (sb\<lparr>sb_minimum := mn, sb_maximum := smax mn mx\<rparr>) (sb_value sb) = sb_value sb"
    using assms by (intro bound_id) (simp_all add: sint_smax)
  then show ?thesis
    by (simp add: setRange_def Let_def setValue_def)
qed

lemma samplesPerLine_shrunk_source: "samplesPerLine shrunk_source = Inr 64"
  using samplesPerLine_scenario by (simp add: shrunk_source_def samplesPerLine_def)

lemma invalidateEvent_shrunk_source:
  "invalidateEvent shrunk_source =
     Some (Inr (shrunk_source\<lparr>viewRange := \<lparr>minimum = 424, maximum = 1064\<rparr>,
            horizontalScrollBar := \<lparr>sb_minimum = 0, sb_maximum = 424, sb_value = 424, singleStep = 640, pageStep = 6400\<rparr>,
            verticalScrollBar := \<lparr>sb_minimum = 0, sb_maximum = 0, sb_value = 0, singleStep = 1, pageStep = 10\<rparr>,
            cursors := \<lparr>selection = \<lparr>minimum = - 6, maximum = - 6\<rparr>, segmentCount = 1\<rparr>,
            update_requests := 2\<rparr>))"
proof -
  have fields: "horizontalScrollBar shrunk_source =
      \<lparr>sb_minimum = 0, sb_maximum = 99424, sb_value = 50000, singleStep = 640, pageStep = 6400\<rparr>"
    "verticalScrollBar shrunk_source = default_scrollbar"
    "widget_width shrunk_source = 10" "source_count shrunk_source = 1000"
    "viewport_height shrunk_source = 100" "plotsHeight shrunk_source = 0"
    "selectedSamples shrunk_source = \<lparr>minimum = 0, maximum = 0\<rparr>"
    "cursors shrunk_source = \<lparr>selection = \<lparr>minimum = 2, maximum = 5\<rparr>, segmentCount = 1\<rparr>"
    "update_requests shrunk_source = 0"
    by (simp_all add: shrunk_source_def scenario_def plotsHeight_def)
  have spl: "samplesPerLine (shrunk_source\<lparr>horizontalScrollBar := hb\<rparr>) = Inr 64" for hb
    by (simp add: samplesPerLine_shrunk_source)
  show ?thesis
    unfolding invalidateEvent_def scrollContentsBy_def
    by (simp add: updateView_Inr [OF spl nonzero_64] fields scrollbar_eval word_eval
        setSelection_def default_scrollbar_def)
qed

lemma samplesPerLine_huge_source: "samplesPerLine huge_source = Inr 64"
  using samplesPerLine_scenario by (simp add: huge_source_def samplesPerLine_def)

lemma invalidateEvent_huge_source:
  "invalidateEvent huge_source =
     Some (Inr (huge_source\<lparr>viewRange := \<lparr>minimum = - 2147483648, maximum = - 2147483008\<rparr>,
            horizontalScrollBar := \<lparr>sb_minimum = - 2147483648, sb_maximum = 2147483072, sb_value = - 2147483648, singleStep = 1, pageStep = 10\<rparr>,
            verticalScrollBar := \<lparr>sb_minimum = 0, sb_maximum = 0, sb_value = 0, singleStep = 1, pageStep = 10\<rparr>,
            cursors := \<lparr>selection = \<lparr>minimum = 33554432, maximum = 33554432\<rparr>, segmentCount = 1\<rparr>,
            update_requests := 1\<rparr>))"
proof -
  have fields: "horizontalScrollBar huge_source = default_scrollbar"
    "verticalScrollBar huge_source = default_scrollbar"
    "widget_width huge_source = 10" "source_count huge_source = 2147483648"
    "viewport_height huge_source = 100" "plotsHeight huge_source = 0"
    "selectedSamples huge_source = \<lparr>minimum = 0, maximum = 0\<rparr>"
    "cursors huge_source = \<lparr>selection = \<lparr>minimum = 2, maximum = 5\<rparr>, segmentCount = 1\<rparr>"
    "update_requests huge_source = 0"
    by (simp_all add: huge_source_def scenario_def plotsHeight_def)
  have spl: "samplesPerLine (huge_source\<lparr>horizontalScrollBar := hb\<rparr>) = Inr 64" for hb
    by (simp add: samplesPerLine_huge_source)
  show ?thesis
    unfolding invalidateEvent_def scrollContentsBy_def
    by (simp add: updateView_Inr [OF spl nonzero_64] fields scrollbar_eval word_eval
        setSelection_def default_scrollbar_def)
qed

text \<open>
  C7, as stated, fails. When the scroll position lies beyond the new sample count, the
  scroll bar moves it and \<^verbatim>\<open>scrollContentsBy\<close> runs \<^verbatim>\<open>updateView\<close>: in a view scrolled
  to sample 50000 whose source has shrunk to 1000 samples, the maximum 1000 is replaced
  by \<open>1000 - 9 * 64 = 424\<close> and the view range is written again. And the sample count is
  a 64-bit number where \<^verbatim>\<open>setMaximum\<close> takes an \<^verbatim>\<open>int\<close>: for a source of \<open>2 ^ 31\<close>
  samples the argument is \<open>- 2 ^ 31\<close>, and the scroll bar lowers its minimum to it.
\<close>

theorem invalidateEvent_counterexample:
  "sint (source_count shrunk_source) = 1000
   \<and> invalidateEvent shrunk_source \<noteq> None
   \<and> \<not> isl (the (invalidateEvent shrunk_source))
   \<and> sint (sb_maximum (horizontalScrollBar (projr (the (invalidateEvent shrunk_source))))) = 424
   \<and> viewRange shrunk_source = \<lparr>minimum = 0, maximum = 0\<rparr>
   \<and> viewRange (projr (the (invalidateEvent shrunk_source))) = \<lparr>minimum = 424, maximum = 1064\<rparr>
   \<and> sint (source_count huge_source) = 2147483648
   \<and> \<not> isl (the (invalidateEvent huge_source))
   \<and> sint (sb_minimum (horizontalScrollBar (projr (the (invalidateEvent huge_source))))) = - 2147483648
   \<and> sint (sb_maximum (horizontalScrollBar (projr (the (invalidateEvent huge_source))))) = 2147483072"
proof -
  have "sint (source_count shrunk_source) = 1000"
    and "viewRange shrunk_source = \<lparr>minimum = 0, maximum = 0\<rparr>"
    and "sint (source_count huge_source) = 2147483648"
    by (simp_all add: shrunk_source_def huge_source_def scenario_def)
  moreover have "invalidateEvent shrunk_source \<noteq> None"
    and "\<not> isl (the (invalidateEvent shrunk_source))"
    and "sint (sb_maximum (horizontalScrollBar (projr (the (invalidateEvent shrunk_source))))) = 424"
    and "viewRange (projr (the (invalidateEvent shrunk_source))) = \<lparr>minimum = 424, maximum = 1064\<rparr>"
    by (simp_all add: invalidateEvent_shrunk_source)
  moreover have "\<not> isl (the (invalidateEvent huge_source))"
    and "sint (sb_minimum (horizontalScrollBar (projr (the (invalidateEvent huge_source))))) = - 2147483648"
    and "sint (sb_maximum (horizontalScrollBar (projr (the (invalidateEvent huge_source))))) = 2147483072"
    by (simp_all add: invalidateEvent_huge_source)
  ultimately show ?thesis
    by simp
qed

text \<open>
  C7, amended. For a sample count from 0 to \<open>2 ^ 31 - 1\<close> and a scroll position that
  is not negative and exceeds neither the old maximum nor the sample count,
  \<^verbatim>\<open>invalidateEvent\<close> returns, sets the horizontal scroll range to exactly 0 and the
  sample count, and changes nothing else: the scroll position, the steps of the scroll
  bar, the view range and all the rest of the state are as before, and no view update
  has run.
\<close>

theorem invalidateEvent_bounds:
  assumes "0 \<le> sint (source_count s)" "sint (source_count s) < 2 ^ 31"
    and "0 \<le> sint (sb_value (horizontalScrollBar s))"
    and "sint (sb_value (horizontalScrollBar s)) \<le> sint (source_count s)"
    and "sint (sb_value (horizontalScrollBar s)) \<le> sint (sb_maximum (horizontalScrollBar s))"
  shows "\<exists>s'. invalidateEvent s = Some (Inr s')
    \<and> sint (sb_minimum (horizontalScrollBar s')) = 0
    \<and> sint (sb_maximum (horizontalScrollBar s')) = sint (source_count s)
    \<and> sb_value (horizontalScrollBar s') = sb_value (horizontalScrollBar s)
    \<and> horizontalScrollBar s' =
         (horizontalScrollBar s)\<lparr>sb_minimum := 0, sb_maximum := narrow (source_count s)\<rparr>
    \<and> s' = s\<lparr>horizontalScrollBar := horizontalScrollBar s'\<rparr>
    \<and> viewRange s' = viewRange s
    \<and> update_requests s' = update_requests s"
proof -
  let ?hb = "horizontalScrollBar s"
  let ?c = "narrow (source_count s)"
  let ?hb1 = "?hb\<lparr>sb_minimum := 0, sb_maximum := smax (sb_maximum ?hb) 0\<rparr>"
  let ?hb2 = "?hb\<lparr>sb_minimum := 0, sb_maximum := ?c\<rparr>"
  have c: "sint ?c = sint (source_count s)"
    using assms(1,2) by (simp add: sint_narrow_fits)
  have "sint (smin 0 ?c) = sint (0 :: cint)"
    using assms(1) c by (simp add: sint_smin)
  then have c_min: "smin 0 ?c = 0"
    by (rule signed_word_eqI)
  have "sint (smax 0 ?c) = sint ?c"
    using assms(1) c by (simp add: sint_smax)
  then have c_max: "smax 0 ?c = ?c"
    by (rule signed_word_eqI)
  note c0 = c_min c_max
  have "sint (sb_value ?hb) \<le> sint (smax (sb_maximum ?hb) 0)"
    using assms(5) by (simp add: sint_smax)
  then have "setRange 0 (smax (sb_maximum ?hb) 0) ?hb
      = ?hb\<lparr>sb_minimum := 0, sb_maximum := smax 0 (smax (sb_maximum ?hb) 0)\<rparr>"
    using assms(3) by (intro setRange_kept) simp_all
  moreover have "sint (smax 0 (smax (sb_maximum ?hb) 0)) = sint (smax (sb_maximum ?hb) 0)"
    by (simp add: sint_smax)
  then have "smax 0 (smax (sb_maximum ?hb) 0) = smax (sb_maximum ?hb) 0"
    by (rule signed_word_eqI)
  ultimately have hb1: "setMinimum 0 ?hb = ?hb1"
    by (simp add: setMinimum_def)
  have "setRange 0 ?c ?hb1 = ?hb1\<lparr>sb_minimum := 0, sb_maximum := smax 0 ?c\<rparr>"
    using assms(3,4) c by (intro setRange_kept) simp_all
  then have hb2: "setMaximum ?c ?hb1 = ?hb2"
    by (simp add: setMaximum_def c0)
  have "invalidateEvent s = Some (Inr (s\<lparr>horizontalScrollBar := ?hb2\<rparr>))"
    by (simp add: invalidateEvent_def Let_def hb1 hb2 valueChanged_def)
  then show ?thesis
    using c by simp
qed

theorem invalidateEvent_bounds_witness:
  "0 \<le> sint (source_count scenario) \<and> sint (source_count scenario) < 2 ^ 31 \<and>
   0 \<le> sint (sb_value (horizontalScrollBar scenario)) \<and>
   sint (sb_value (horizontalScrollBar scenario)) \<le> sint (source_count scenario) \<and>
   sint (sb_value (horizontalScrollBar scenario)) \<le> sint (sb_maximum (horizontalScrollBar scenario)) \<and>
   (\<exists>s'. invalidateEvent scenario = Some (Inr s') \<and>
      sint (sb_minimum (horizontalScrollBar s')) = 0 \<and>
      sint (sb_maximum (horizontalScrollBar s')) = 1000 \<and>
      sb_value (horizontalScrollBar s') = 0 \<and>
      viewRange s' = \<lparr>minimum = 0, maximum = 0\<rparr>)"
proof -
  have h1: "0 \<le> sint (source_count scenario)" and h2: "sint (source_count scenario) < 2 ^ 31"
    and h3: "0 \<le> sint (sb_value (horizontalScrollBar scenario))"
    and h4: "sint (sb_value (horizontalScrollBar scenario)) \<le> sint (source_count scenario)"
    and h5: "sint (sb_value (horizontalScrollBar scenario)) \<le> sint (sb_maximum (horizontalScrollBar scenario))"
    by (simp_all add: scenario_def default_scrollbar_def)
  have start: "sb_value (horizontalScrollBar scenario) = 0" "sint (source_count scenario) = 1000"
    "viewRange scenario = \<lparr>minimum = 0, maximum = 0\<rparr>"
    by (simp_all add: scenario_def default_scrollbar_def)
  from invalidateEvent_bounds [OF h1 h2 h3 h4 h5] obtain s' where
    "invalidateEvent scenario = Some (Inr s')"
    "sint (sb_minimum (horizontalScrollBar s')) = 0"
    "sint (sb_maximum (horizontalScrollBar s')) = sint (source_count scenario)"
    "sb_value (horizontalScrollBar s') = sb_value (horizontalScrollBar scenario)"
    "viewRange s' = viewRange scenario"
    by blast
  with h1 h2 h3 h4 h5 show ?thesis
    by (simp add: start)
qed

section \<open>The segments of the selection\<close>





section \<open>The contract of setFFTAndZoom\<close>

lemma setFFTAndZoom_updateView:
  assumes "zoom \<noteq> 0" "zoom \<noteq> - 1"
  shows "\<exists>s3. setFFTAndZoom sz zoom s = updateView True s3 \<and> fftSize s3 = sz \<and> zoomLevel s3 = zoom
           \<and> samplesPerLine s3 = Inr (widen (cdiv sz zoom))"
proof -
  let ?s3 = "s\<lparr>fftSize := sz, zoomLevel := zoom,
      spectrogramPlot := map_option (sp_zoomLevel_update (\<lambda>_. zoom))
        (map_option (sp_fftSize_update (\<lambda>_. sz)) (spectrogramPlot s)),
      horizontalScrollBar := setPageStep (cdiv (sz * 100) zoom)
        (setSingleStep (cdiv (sz * 10) zoom) (horizontalScrollBar s))\<rparr>"
  have "setFFTAndZoom sz zoom s = updateView True ?s3"
    using assms by (simp add: setFFTAndZoom_def Let_def checked_div_Inr)
  moreover have "fftSize ?s3 = sz" "zoomLevel ?s3 = zoom"
    by simp_all
  moreover have "samplesPerLine ?s3 = Inr (widen (cdiv sz zoom))"
    using assms by (simp add: samplesPerLine_def checked_div_Inr)
  ultimately show ?thesis
    by blast
qed

lemma setFFTAndZoom_returns:
  assumes "zoom \<noteq> 0" "zoom \<noteq> - 1" "widen (cdiv sz zoom) \<noteq> 0" "widen (cdiv sz zoom) \<noteq> - 1"
  shows "\<exists>s'. setFFTAndZoom sz zoom s = Some (Inr s') \<and> fftSize s' = sz \<and> zoomLevel s' = zoom
           \<and> samplesPerLine s' = Inr (widen (cdiv sz zoom))"
proof -
  from setFFTAndZoom_updateView [OF assms(1,2)] obtain s3 where
    s3: "setFFTAndZoom sz zoom s = updateView True s3" "fftSize s3 = sz" "zoomLevel s3 = zoom"
      "samplesPerLine s3 = Inr (widen (cdiv sz zoom))"
    by blast
  from updateView_returns [OF s3(4) assms(3,4), of True] obtain s' where
    "updateView True s3 = Some (Inr s')" "fftSize s' = fftSize s3" "zoomLevel s' = zoomLevel s3"
    "samplesPerLine s' = Inr (widen (cdiv sz zoom))"
    by blast
  with s3 show ?thesis
    by simp
qed

lemma setFFTAndZoom_fails:
  assumes "zoom \<noteq> 0" "zoom \<noteq> - 1" "cdiv sz zoom = 0"
  shows "setFFTAndZoom sz zoom s = Some (Inl DivisionByZero)"
proof -
  from setFFTAndZoom_updateView [OF assms(1,2)] obtain s3 where
    s3: "setFFTAndZoom sz zoom s = updateView True s3"
      "samplesPerLine s3 = Inr (widen (cdiv sz zoom))"
    by blast
  from s3(2) have "samplesPerLine s3 = Inr 0"
    by (simp add: assms(3) widen_def)
  then show ?thesis
    unfolding s3(1) by (rule updateView_zero_spl)
qed

lemma setFFTAndZoom_zero_size:
  "setFFTAndZoom 0 zoom s = Some (Inl DivisionByZero)"
proof (cases "zoom = 0")
  case True
  then show ?thesis
    by (simp add: setFFTAndZoom_def checked_div_def)
next
  case False
  have q: "checked_div (0 :: cint) zoom = Inr 0"
    using False by (simp add: checked_div_def cdiv_def)
  let ?s3 = "s\<lparr>fftSize := 0, zoomLevel := zoom,
      spectrogramPlot := map_option (sp_zoomLevel_update (\<lambda>_. zoom))
        (map_option (sp_fftSize_update (\<lambda>_. 0)) (spectrogramPlot s)),
      horizontalScrollBar := setPageStep 0 (setSingleStep 0 (horizontalScrollBar s))\<rparr>"
  have "setFFTAndZoom 0 zoom s = updateView True ?s3"
    by (simp add: setFFTAndZoom_def Let_def q)
  moreover have "samplesPerLine ?s3 = Inr 0"
    by (simp add: samplesPerLine_def q widen_def)
  ultimately show ?thesis
    by (simp add: updateView_zero_spl)
qed

text \<open>
  C8, as stated, fails in both readings. \<^verbatim>\<open>setFFTAndZoom\<close> called with FFT size 64 and
  zoom \<open>- 2\<close> returns, with \<open>- 32\<close> samples per column: nothing has checked the zoom. And
  zoom 2 with FFT size 1 meets \<open>zoom \<ge> 1\<close> and \<open>size \<ge> 1\<close>, gives 0 samples per column,
  and \<^verbatim>\<open>updateView\<close> divides the selection by it.
\<close>

theorem setFFTAndZoom_counterexample:
  "setFFTAndZoom 64 (- 2) scenario \<noteq> None
   \<and> \<not> isl (the (setFFTAndZoom 64 (- 2) scenario))
   \<and> samplesPerLine (projr (the (setFFTAndZoom 64 (- 2) scenario))) = Inr (- 32)
   \<and> 1 \<le> sint (2 :: cint) \<and> 1 \<le> sint (1 :: cint)
   \<and> setFFTAndZoom 1 2 scenario = Some (Inl DivisionByZero)"
proof -
  have q: "widen (cdiv (64 :: cint) (- 2)) = - 32"
    by (simp add: word_eval)
  have "\<exists>s'. setFFTAndZoom 64 (- 2) scenario = Some (Inr s') \<and> fftSize s' = 64 \<and> zoomLevel s' = - 2
           \<and> samplesPerLine s' = Inr (widen (cdiv 64 (- 2)))"
    by (rule setFFTAndZoom_returns) (simp_all add: q)
  then have a: "setFFTAndZoom 64 (- 2) scenario \<noteq> None"
    "\<not> isl (the (setFFTAndZoom 64 (- 2) scenario))"
    "samplesPerLine (projr (the (setFFTAndZoom 64 (- 2) scenario))) = Inr (- 32)"
    by (auto simp: q)
  have b: "setFFTAndZoom 1 2 scenario = Some (Inl DivisionByZero)"
    by (rule setFFTAndZoom_fails) (simp_all add: word_eval)
  from a b show ?thesis by simp
qed

text \<open>
  C8, amended. With zoom 0, \<^verbatim>\<open>setFFTAndZoom\<close> ends in a division by zero, whatever the
  FFT size; with FFT size 0 it ends in a division by zero, whatever the zoom. With \<open>1 \<le> zoom \<le> size\<close> no division by zero and
  no overflowing division is reached, in \<^verbatim>\<open>setFFTAndZoom\<close> and in the view updates it
  runs: the call returns, and the samples per column are \<open>size div zoom\<close>, at least 1.
\<close>

theorem setFFTAndZoom_contract:
  "setFFTAndZoom sz 0 s = Some (Inl DivisionByZero)
   \<and> setFFTAndZoom 0 zoom s = Some (Inl DivisionByZero)
   \<and> (1 \<le> sint zoom \<and> sint zoom \<le> sint sz \<longrightarrow>
        (\<exists>s' spl. setFFTAndZoom sz zoom s = Some (Inr s') \<and> fftSize s' = sz \<and> zoomLevel s' = zoom
           \<and> samplesPerLine s' = Inr spl \<and> sint spl = sint sz div sint zoom \<and> 1 \<le> sint spl))"
proof (intro conjI impI)
  show "setFFTAndZoom sz 0 s = Some (Inl DivisionByZero)"
    by (simp add: setFFTAndZoom_def checked_div_def)
next
  show "setFFTAndZoom 0 zoom s = Some (Inl DivisionByZero)"
    by (rule setFFTAndZoom_zero_size)
next
  assume pre: "1 \<le> sint zoom \<and> sint zoom \<le> sint sz"
  then have znz: "zoom \<noteq> 0" "zoom \<noteq> - 1" by auto
  have zpos: "0 < sint zoom" using pre by simp
  let ?q = "cdiv sz zoom"
  have q: "sint ?q = sint sz div sint zoom"
    using sint_cdiv [OF zpos, of sz] pre by (simp add: sdiv_pos_divisor)
  have q1: "1 \<le> sint ?q"
    unfolding q using pre pos_imp_zdiv_pos_iff [of "sint zoom" "sint sz"] by simp
  then have "1 \<le> sint (widen ?q)"
    by simp
  then have spl_nz: "widen ?q \<noteq> 0" "widen ?q \<noteq> - 1"
    by (rule sint_pos_nonzero)+
  from setFFTAndZoom_returns [OF znz spl_nz, of s] q q1
  show "\<exists>s' spl. setFFTAndZoom sz zoom s = Some (Inr s') \<and> fftSize s' = sz
      \<and> zoomLevel s' = zoom \<and> samplesPerLine s' = Inr spl
      \<and> sint spl = sint sz div sint zoom \<and> 1 \<le> sint spl"
    by auto
qed

theorem setFFTAndZoom_contract_witness:
  "1 \<le> sint (2 :: cint) \<and> sint (2 :: cint) \<le> sint (128 :: cint) \<and>
   (\<exists>s'. setFFTAndZoom 128 2 scenario = Some (Inr s') \<and> samplesPerLine s' = Inr 64)"
proof -
  have pre: "1 \<le> sint (2 :: cint) \<and> sint (2 :: cint) \<le> sint (128 :: cint)"
    by simp
  from setFFTAndZoom_contract [of 128 scenario 2, THEN conjunct2, THEN conjunct2, rule_format, OF pre]
  obtain s' spl where s': "setFFTAndZoom 128 2 scenario = Some (Inr s')"
    "samplesPerLine s' = Inr spl" "sint spl = sint (128 :: cint) div sint (2 :: cint)"
    by blast
  from s'(3) have "sint spl = sint (64 :: off_t)" by simp
  then have "spl = 64" by (rule signed_word_eqI)
  with s' pre show ?thesis by blast
qed

section \<open>The selection across a view update\<close>

lemma sdiv_remainder:
  fixes a b :: int
  assumes "0 < b"
  shows "\<bar>a - (a sdiv b) * b\<bar> < b"
proof (cases "0 \<le> a")
  case True
  then have "a - (a sdiv b) * b = a mod b"
    using assms by (simp add: sdiv_pos_divisor minus_div_mult_eq_mod)
  then show ?thesis
    using assms by simp
next
  case False
  then have "a - (a sdiv b) * b = - ((- a) mod b)"
    using assms by (simp add: sdiv_pos_divisor minus_div_mult_eq_mod [symmetric])
  then show ?thesis
    using assms pos_mod_bound [of b "- a"] pos_mod_sign [of b "- a"] by linarith
qed

lemma column_fits_difference:
  fixes D q :: int
  assumes "1 \<le> q" "q < 2 ^ 31" "- (2 ^ 31) \<le> D sdiv q" "D sdiv q < 2 ^ 31"
  shows "- (2 ^ 63) \<le> D" "D < 2 ^ 63"
proof -
  have r: "\<bar>D - (D sdiv q) * q\<bar> < q"
    using assms(1) by (intro sdiv_remainder) simp
  have "\<bar>D sdiv q\<bar> \<le> 2 ^ 31" "\<bar>q\<bar> \<le> 2 ^ 31"
    using assms by simp_all
  then have "\<bar>(D sdiv q) * q\<bar> \<le> 2 ^ 62"
    by (rule int_prod_bound)
  with r assms(2) show "- (2 ^ 63) \<le> D" "D < 2 ^ 63"
    by simp_all
qed

lemma roundtrip_endpoint:
  fixes a :: off_t and v q :: cint
  assumes "1 \<le> sint q"
    and "- (2 ^ 31) \<le> (sint a - sint v) sdiv sint q" "(sint a - sint v) sdiv sint q < 2 ^ 31"
  shows "\<bar>sint (widen v + widen (narrow (cdiv (a - widen v) (widen q))) * widen q) - sint a\<bar> < sint q"
proof -
  let ?D = "sint a - sint v"
  let ?c = "?D sdiv sint q"
  have D: "- (2 ^ 63) \<le> ?D" "?D < 2 ^ 63"
    using column_fits_difference [OF assms(1) _ assms(2,3)] sint_lt [of q] by simp_all
  have diff: "sint (a - widen v) = ?D"
    using D by (simp add: sint64_diff)
  have "sint (narrow (cdiv (a - widen v) (widen q))) = signed_take_bit (31::nat) ?c"
    by (simp add: sint_narrow_cdiv diff)
  also have "\<dots> = ?c"
    using assms(2,3) by (rule stb31)
  finally have col: "sint (narrow (cdiv (a - widen v) (widen q))) = ?c" .
  have "sint (widen v + widen (narrow (cdiv (a - widen v) (widen q))) * widen q) - sint a
      = - (?D - ?c * sint q)"
    by (simp add: sint_add_mult_widen col)
  moreover have "\<bar>?D - ?c * sint q\<bar> < sint q"
    using assms(1) by (intro sdiv_remainder) simp
  ultimately show ?thesis
    by simp
qed


lemma updateView_cursors:
  assumes "samplesPerLine s = Inr spl" "spl \<noteq> 0" "spl \<noteq> - 1"
    and "updateView reCenter s = Some (Inr s1)"
  shows "selection (cursors s1) =
           \<lparr>minimum = narrow (cdiv (minimum (selectedSamples s)
                        - widen (sb_value (horizontalScrollBar s1))) spl),
            maximum = narrow (cdiv (maximum (selectedSamples s)
                        - widen (sb_value (horizontalScrollBar s1))) spl)\<rparr>"
    and "selectedSamples s1 = selectedSamples s"
    and "samplesPerLine s1 = Inr spl"
  using updateView_returns [OF assms(1-3), of reCenter] assms(4) by auto

text \<open>
  C4, amended. In a state with at least one sample per column, let \<^verbatim>\<open>updateView\<close> turn
  the absolute selection into pixel cursors and \<^verbatim>\<open>cursorsMoved\<close> turn them back, at the
  scroll position \<^verbatim>\<open>updateView\<close> leaves. For each end of the selection whose column,
  the truncated quotient of its distance from the scroll position by the samples per
  column, fits a 32-bit \<^verbatim>\<open>int\<close>, the result differs from the original by less than
  the samples per column.
\<close>


theorem selection_roundtrip:
  assumes "samplesPerLine s = Inr spl" "1 \<le> sint spl"
    and "updateView reCenter s = Some (Inr s1)"
    and "- (2 ^ 31) \<le> (sint (minimum (selectedSamples s))
            - sint (sb_value (horizontalScrollBar s1))) sdiv sint spl"
    and "(sint (minimum (selectedSamples s))
            - sint (sb_value (horizontalScrollBar s1))) sdiv sint spl < 2 ^ 31"
    and "- (2 ^ 31) \<le> (sint (maximum (selectedSamples s))
            - sint (sb_value (horizontalScrollBar s1))) sdiv sint spl"
    and "(sint (maximum (selectedSamples s))
            - sint (sb_value (horizontalScrollBar s1))) sdiv sint spl < 2 ^ 31"
  shows "\<exists>s2. cursorsMoved s1 = Inr s2
     \<and> \<bar>sint (minimum (selectedSamples s2)) - sint (minimum (selectedSamples s))\<bar> < sint spl
     \<and> \<bar>sint (maximum (selectedSamples s2)) - sint (maximum (selectedSamples s))\<bar> < sint spl
     \<and> horizontalScrollBar s2 = horizontalScrollBar s1"
proof -
  from assms(1) obtain q where q: "spl = widen q"
    using samplesPerLine_Inr by blast
  from assms(2) have nz: "spl \<noteq> 0" "spl \<noteq> - 1"
    by (rule sint_pos_nonzero)+
  have q1: "1 \<le> sint q"
    using assms(2) by (simp add: q)
  note s1 = updateView_cursors [OF assms(1) nz assms(3)]
  let ?v = "sb_value (horizontalScrollBar s1)"
  have lo: "\<bar>sint (widen ?v + widen (narrow (cdiv (minimum (selectedSamples s) - widen ?v) (widen q)))
               * widen q) - sint (minimum (selectedSamples s))\<bar> < sint q"
    using q1 assms(4,5) by (intro roundtrip_endpoint) (simp_all add: q)
  have hi: "\<bar>sint (widen ?v + widen (narrow (cdiv (maximum (selectedSamples s) - widen ?v) (widen q)))
               * widen q) - sint (maximum (selectedSamples s))\<bar> < sint q"
    using q1 assms(6,7) by (intro roundtrip_endpoint) (simp_all add: q)
  from lo hi show ?thesis
    unfolding cursorsMoved_Inr [OF s1(3)]
    by (simp add: s1(1) q viewport_update_def emit_def del: of_int_sint)
qed

lemma samplesPerLine_far_selection: "samplesPerLine far_selection = Inr 1"
  by (simp add: far_selection_def scenario_def samplesPerLine_def checked_div_def word_eval)

lemma nonzero_1: "(1 :: off_t) \<noteq> 0" "(1 :: off_t) \<noteq> - 1"
  by simp_all


lemma updateView_far_selection:
  "updateView False far_selection =
     Some (Inr (far_selection\<lparr>viewRange := \<lparr>minimum = 0, maximum = 10\<rparr>,
            horizontalScrollBar := \<lparr>sb_minimum = 0, sb_maximum = 991, sb_value = 0, singleStep = 1, pageStep = 10\<rparr>,
            verticalScrollBar := \<lparr>sb_minimum = 0, sb_maximum = 0, sb_value = 0, singleStep = 1, pageStep = 10\<rparr>,
            cursors := \<lparr>selection = \<lparr>minimum = 0, maximum = 10\<rparr>, segmentCount = 1\<rparr>,
            update_requests := 1\<rparr>))"
proof -
  have fields: "horizontalScrollBar far_selection = default_scrollbar"
    "verticalScrollBar far_selection = default_scrollbar"
    "widget_width far_selection = 10" "source_count far_selection = 1000"
    "viewport_height far_selection = 100" "plotsHeight far_selection = 0"
    "selectedSamples far_selection = \<lparr>minimum = 4294967296, maximum = 4294967306\<rparr>"
    "cursors far_selection = \<lparr>selection = \<lparr>minimum = 2, maximum = 5\<rparr>, segmentCount = 1\<rparr>"
    "update_requests far_selection = 0"
    by (simp_all add: far_selection_def scenario_def plotsHeight_def)
  show ?thesis
    unfolding updateView_Inr [OF samplesPerLine_far_selection nonzero_1]
    by (simp add: fields scrollbar_eval word_eval setSelection_def default_scrollbar_def)
qed


lemma cursorsMoved_far_selection:
  "selectedSamples (projr (cursorsMoved (projr (the (updateView False far_selection)))))
     = \<lparr>minimum = 0, maximum = 10\<rparr>"
proof -
  let ?s1 = "projr (the (updateView False far_selection))"
  have spl: "samplesPerLine ?s1 = Inr 1"
    using samplesPerLine_far_selection
    by (simp add: updateView_far_selection samplesPerLine_def)
  show ?thesis
    unfolding cursorsMoved_Inr [OF spl]
    by (simp add: updateView_far_selection viewport_update_def emit_def widen_def
        del: of_int_sint)
qed

text \<open>
  C4, as stated, fails: \<^verbatim>\<open>updateView\<close> casts the column to \<^verbatim>\<open>int\<close>. At one sample per
  column and scroll position 0, the selection that starts at sample \<open>2 ^ 32\<close> gets the
  column 0 and comes back as sample 0.
\<close>


theorem selection_roundtrip_counterexample:
  "sint (minimum (selectedSamples far_selection)) = 4294967296
   \<and> samplesPerLine far_selection = Inr 1
   \<and> updateView False far_selection \<noteq> None
   \<and> \<not> isl (the (updateView False far_selection))
   \<and> \<not> isl (cursorsMoved (projr (the (updateView False far_selection))))
   \<and> sint (minimum (selectedSamples
         (projr (cursorsMoved (projr (the (updateView False far_selection))))))) = 0
   \<and> \<not> \<bar>sint (minimum (selectedSamples
              (projr (cursorsMoved (projr (the (updateView False far_selection)))))))
            - sint (minimum (selectedSamples far_selection))\<bar> \<le> sint (1 :: off_t)"
proof -
  let ?s1 = "projr (the (updateView False far_selection))"
  have spl: "samplesPerLine ?s1 = Inr 1"
    using samplesPerLine_far_selection
    by (simp add: updateView_far_selection samplesPerLine_def)
  have "\<not> isl (cursorsMoved ?s1)"
    unfolding cursorsMoved_Inr [OF spl] by simp
  moreover have "updateView False far_selection \<noteq> None"
    and "\<not> isl (the (updateView False far_selection))"
    unfolding updateView_far_selection by simp_all
  moreover have "sint (minimum (selectedSamples far_selection)) = 4294967296"
    by (simp add: far_selection_def scenario_def)
  ultimately show ?thesis
    by (simp add: cursorsMoved_far_selection samplesPerLine_far_selection)
qed

lemma samplesPerLine_offgrid: "samplesPerLine offgrid = Inr 64"
  using samplesPerLine_scenario by (simp add: offgrid_def samplesPerLine_def)

lemma updateView_offgrid:
  "updateView False offgrid =
     Some (Inr (offgrid\<lparr>viewRange := \<lparr>minimum = 0, maximum = 640\<rparr>,
            horizontalScrollBar := \<lparr>sb_minimum = 0, sb_maximum = 424, sb_value = 0, singleStep = 1, pageStep = 10\<rparr>,
            verticalScrollBar := \<lparr>sb_minimum = 0, sb_maximum = 0, sb_value = 0, singleStep = 1, pageStep = 10\<rparr>,
            cursors := \<lparr>selection = \<lparr>minimum = 2, maximum = 5\<rparr>, segmentCount = 1\<rparr>,
            update_requests := 1\<rparr>))"
proof -
  have fields: "horizontalScrollBar offgrid = default_scrollbar"
    "verticalScrollBar offgrid = default_scrollbar"
    "widget_width offgrid = 10" "source_count offgrid = 1000"
    "viewport_height offgrid = 100" "plotsHeight offgrid = 0"
    "selectedSamples offgrid = \<lparr>minimum = 130, maximum = 320\<rparr>"
    "cursors offgrid = \<lparr>selection = \<lparr>minimum = 2, maximum = 5\<rparr>, segmentCount = 1\<rparr>"
    "update_requests offgrid = 0"
    by (simp_all add: offgrid_def scenario_def plotsHeight_def)
  show ?thesis
    unfolding updateView_Inr [OF samplesPerLine_offgrid nonzero_64]
    by (simp add: fields scrollbar_eval word_eval setSelection_def default_scrollbar_def)
qed


theorem selection_roundtrip_witness:
  "samplesPerLine offgrid = Inr 64 \<and> 1 \<le> sint (64 :: off_t)
   \<and> updateView False offgrid \<noteq> None
   \<and> \<not> isl (the (updateView False offgrid))
   \<and> sint (sb_value (horizontalScrollBar (projr (the (updateView False offgrid))))) = 0
   \<and> sint (minimum (selectedSamples offgrid)) = 130
   \<and> sint (maximum (selectedSamples offgrid)) = 320
   \<and> (\<exists>s2. cursorsMoved (projr (the (updateView False offgrid))) = Inr s2
        \<and> \<bar>sint (minimum (selectedSamples s2)) - 130\<bar> < 64
        \<and> \<bar>sint (maximum (selectedSamples s2)) - 320\<bar> < 64)"
proof -
  let ?s1 = "projr (the (updateView False offgrid))"
  have upd: "updateView False offgrid = Some (Inr ?s1)"
    by (simp add: updateView_offgrid)
  have pos: "1 \<le> sint (64 :: off_t)"
    by simp
  have v: "sint (sb_value (horizontalScrollBar ?s1)) = 0"
    by (simp add: updateView_offgrid)
  have sel: "sint (minimum (selectedSamples offgrid)) = 130"
    "sint (maximum (selectedSamples offgrid)) = 320"
    by (simp_all add: offgrid_def scenario_def)
  have fits: "- (2 ^ 31) \<le> (sint (minimum (selectedSamples offgrid))
            - sint (sb_value (horizontalScrollBar ?s1))) sdiv sint (64 :: off_t)"
    "(sint (minimum (selectedSamples offgrid))
            - sint (sb_value (horizontalScrollBar ?s1))) sdiv sint (64 :: off_t) < 2 ^ 31"
    "- (2 ^ 31) \<le> (sint (maximum (selectedSamples offgrid))
            - sint (sb_value (horizontalScrollBar ?s1))) sdiv sint (64 :: off_t)"
    "(sint (maximum (selectedSamples offgrid))
            - sint (sb_value (horizontalScrollBar ?s1))) sdiv sint (64 :: off_t) < 2 ^ 31"
    by (simp_all add: v sel signed_divide_int_def)
  from selection_roundtrip [OF samplesPerLine_offgrid pos upd fits]
  have "\<exists>s2. cursorsMoved ?s1 = Inr s2
        \<and> \<bar>sint (minimum (selectedSamples s2)) - 130\<bar> < 64
        \<and> \<bar>sint (maximum (selectedSamples s2)) - 320\<bar> < 64"
    by (auto simp: sel)
  moreover have "updateView False offgrid \<noteq> None"
    and "\<not> isl (the (updateView False offgrid))"
    by (simp_all add: updateView_offgrid)
  ultimately show ?thesis
    using samplesPerLine_offgrid pos v sel by simp
qed

section \<open>Recentring\<close>

lemma sdiv_2:
  fixes a :: int
  shows "a sdiv 2 = (if 0 \<le> a then a div 2 else - ((- a) div 2))"
  by (rule sdiv_pos_divisor) simp

lemma sdiv_2_near:
  fixes a :: int
  shows "a - 1 \<le> 2 * (a sdiv 2)" "2 * (a sdiv 2) \<le> a + 1"
  unfolding sdiv_2 by presburger+

lemma sdiv_2_double:
  fixes m :: int
  shows "(2 * m) sdiv 2 = m"
  unfolding sdiv_2 by presburger

lemma centre_bound_lin:
  fixes x y z L1 L2 :: int
  assumes "L1 - L2 - 1 \<le> 2 * x" "2 * x \<le> L1 - L2 + 1"
    and "L2 - 1 \<le> 2 * y" "2 * y \<le> L2 + 1"
    and "L1 - 1 \<le> 2 * z" "2 * z \<le> L1 + 1"
  shows "\<bar>x + y - z\<bar> \<le> 1"
  using assms by presburger

lemma centre_bound:
  fixes L1 L2 :: int
  shows "\<bar>(L1 - L2) sdiv 2 + L2 sdiv 2 - L1 sdiv 2\<bar> \<le> 1"
  by (rule centre_bound_lin [OF sdiv_2_near [of "L1 - L2"] sdiv_2_near [of L2] sdiv_2_near [of L1]])

lemma midpoint_bound_lin:
  fixes x y X Y B spl :: int
  assumes "1 \<le> spl" "X - 1 \<le> 2 * x" "2 * x \<le> X + 1" "Y - 1 \<le> 2 * y" "2 * y \<le> Y + 1"
    and "X + 2 * B - Y = - spl"
  shows "\<bar>x + B - y\<bar> \<le> spl"
  using assms by presburger

lemma midpoint_bound_aux:
  fixes A B q0 spl :: int
  assumes "1 \<le> spl"
  shows "\<bar>(2 * (A - B) + (q0 - spl)) sdiv 2 + B - (2 * A + q0) sdiv 2\<bar> \<le> spl"
  by (rule midpoint_bound_lin [OF assms sdiv_2_near [of "2 * (A - B) + (q0 - spl)"]
        sdiv_2_near [of "2 * A + q0"]]) simp

lemma midpoint_bound:
  fixes w q0 spl :: int
  assumes "1 \<le> spl" "0 \<le> w"
  shows "\<bar>(w * q0 - w * spl) sdiv 2 + (w sdiv 2) * spl - (w * q0) sdiv 2\<bar> \<le> spl"
proof (cases "even w")
  case True
  then obtain k where k: "w = 2 * k" by (elim evenE)
  have "w * q0 - w * spl = 2 * (k * q0 - k * spl)" "w * q0 = 2 * (k * q0)"
    unfolding k by (simp_all add: algebra_simps)
  then have "(w * q0 - w * spl) sdiv 2 = k * q0 - k * spl" "(w * q0) sdiv 2 = k * q0"
    by (simp_all only: sdiv_2_double)
  moreover have "w sdiv 2 = k"
    unfolding k by (rule sdiv_2_double)
  ultimately show ?thesis
    using assms(1) by simp
next
  case False
  then obtain k where k: "w = 2 * k + 1" by (elim oddE)
  have "0 \<le> k"
    using assms(2) k by simp
  then have e3: "w sdiv 2 = k"
    unfolding k sdiv_2 by simp
  have e1: "w * q0 - w * spl = 2 * (k * q0 - k * spl) + (q0 - spl)"
    and e2: "w * q0 = 2 * (k * q0) + q0"
    unfolding k by (simp_all add: algebra_simps)
  have f1: "(w * q0 - w * spl) sdiv 2 = (2 * (k * q0 - k * spl) + (q0 - spl)) sdiv 2"
    by (simp only: e1)
  have f2: "(w * q0) sdiv 2 = (2 * (k * q0) + q0) sdiv 2"
    by (simp only: e2)
  show ?thesis
    using midpoint_bound_aux [OF assms(1), of "k * q0" "k * spl" q0]
    by (simp only: f1 f2 e3)
qed


lemma updateView_True_hbar:
  assumes "samplesPerLine s = Inr spl" "spl \<noteq> 0" "spl \<noteq> - 1"
    and "updateView True s = Some (Inr s')"
  shows "horizontalScrollBar s' =
     setMaximum (narrow (source_count s - widen (widget_width s - 1) * spl))
       (setValue (narrow (widen (sb_value (horizontalScrollBar s))
                   + cdiv (range_length (viewRange s) - widen (widget_width s) * spl) 2))
          (horizontalScrollBar s))"
  using updateView_returns [OF assms(1-3), of True] assms(4) by auto

lemma recentred_position:
  fixes v w q0 q :: cint
  assumes "1 \<le> sint q" "1 \<le> sint q0" "0 \<le> sint w"
  shows "sint (widen v + cdiv (widen w * widen q0 - widen w * widen q) 2)
           = sint v + (sint w * sint q0 - sint w * sint q) sdiv 2"
proof -
  let ?L1 = "sint w * sint q0" and ?L2 = "sint w * sint q"
  have b1: "0 \<le> ?L1" "?L1 \<le> 2 ^ 62"
    using assms widen_prod_bound [of w q0] by (simp_all add: sint_mult_widen)
  have b2: "0 \<le> ?L2" "?L2 \<le> 2 ^ 62"
    using assms widen_prod_bound [of w q] by (simp_all add: sint_mult_widen)
  have d: "sint (widen w * widen q0 - widen w * widen q) = ?L1 - ?L2"
    using b1 b2 by (subst sint64_diff) (simp_all add: sint_mult_widen)
  have two: "0 < sint (2 :: off_t)"
    by simp
  have h: "sint (cdiv (widen w * widen q0 - widen w * widen q) 2) = (?L1 - ?L2) sdiv 2"
    using sint_cdiv [OF two, of "widen w * widen q0 - widen w * widen q"] by (simp add: d)
  have hb: "\<bar>(?L1 - ?L2) sdiv 2\<bar> \<le> 2 ^ 62"
    using sdiv_pos_bounds [of 2 "?L1 - ?L2"] b1 b2 by (cases "0 \<le> ?L1 - ?L2") simp_all
  have "sint (widen v + cdiv (widen w * widen q0 - widen w * widen q) 2)
      = sint (widen v) + sint (cdiv (widen w * widen q0 - widen w * widen q) 2)"
    using hb sint32_abs [of v] by (intro sint64_add) (simp_all add: h)
  then show ?thesis
    by (simp add: h)
qed

text \<open>
  C3, amended. \<^verbatim>\<open>updateView(true)\<close> hands the scroll position plus half of the old
  length minus the new length to \<^verbatim>\<open>setValue\<close>, which bounds it to the current scroll
  range, and sets the new maximum afterwards, which bounds it again. Let the old view
  range start at the scroll position and have the length of the width times the old
  samples per column, with a width that is not negative and at least one sample per
  column before and after. When the recentred position lies in the old scroll range and
  below the new maximum, it is the new scroll position; the sample at the pixel midpoint
  of the viewport is then within one samples-per-column unit of the old centre sample,
  and the centre of the new view within one sample of it.
\<close>


theorem updateView_recenter:
  assumes "samplesPerLine s = Inr spl" "1 \<le> sint spl"
    and "updateView True s = Some (Inr s')"
    and "viewRange s =
           \<lparr>minimum = widen (sb_value (horizontalScrollBar s)),
            maximum = widen (sb_value (horizontalScrollBar s)) + widen (widget_width s) * widen q0\<rparr>"
    and "1 \<le> sint q0" "0 \<le> sint (widget_width s)"
    and "t = sint (sb_value (horizontalScrollBar s))
             + (sint (widget_width s) * sint q0 - sint (widget_width s) * sint spl) sdiv 2"
    and "sint (sb_minimum (horizontalScrollBar s)) \<le> t"
    and "t \<le> sint (sb_maximum (horizontalScrollBar s))"
    and "t \<le> sint (sb_maximum (horizontalScrollBar s'))"
  shows "horizontalScrollBar s' =
           setMaximum (narrow (source_count s - widen (widget_width s - 1) * spl))
             (setValue (narrow (widen (sb_value (horizontalScrollBar s))
                         + cdiv (range_length (viewRange s) - widen (widget_width s) * spl) 2))
                (horizontalScrollBar s))
     \<and> sint (sb_value (horizontalScrollBar s')) = t
     \<and> \<bar>(t + (sint (widget_width s) sdiv 2) * sint spl)
          - (sint (sb_value (horizontalScrollBar s)) + (sint (widget_width s) * sint q0) sdiv 2)\<bar>
         \<le> sint spl
     \<and> \<bar>(t + (sint (widget_width s) * sint spl) sdiv 2)
          - (sint (sb_value (horizontalScrollBar s)) + (sint (widget_width s) * sint q0) sdiv 2)\<bar>
         \<le> 1"
proof -
  let ?hb = "horizontalScrollBar s" and ?w = "widget_width s"
  let ?v = "sb_value ?hb"
  from assms(1) obtain q where q: "spl = widen q"
    using samplesPerLine_Inr by blast
  from assms(2) have nz: "spl \<noteq> 0" "spl \<noteq> - 1"
    by (rule sint_pos_nonzero)+
  have q1: "1 \<le> sint q"
    using assms(2) by (simp add: q)
  let ?M = "narrow (source_count s - widen (?w - 1) * spl)"
  let ?X = "widen ?v + cdiv (range_length (viewRange s) - widen ?w * spl) 2"
  have hbar': "horizontalScrollBar s' = setMaximum ?M (setValue (narrow ?X) ?hb)"
    by (rule updateView_True_hbar [OF assms(1) nz assms(3)])
  have len: "range_length (viewRange s) = widen ?w * widen q0"
    by (simp add: assms(4) range_length_def)
  have X: "sint ?X = t"
    unfolding len q assms(7) using q1 assms(5,6) by (simp add: recentred_position)
  have t32: "- (2 ^ 31) \<le> t" "t < 2 ^ 31"
    using assms(8,9) sint_ge [of "sb_minimum ?hb"] sint_lt [of "sb_maximum ?hb"] by simp_all
  have nX: "sint (narrow ?X) = t"
    using t32 by (simp add: sint_narrow_fits X)
  have v1: "sb_value (setValue (narrow ?X) ?hb) = narrow ?X"
    unfolding setValue_def using assms(8,9) by (simp add: bound_id nX)
  have M: "sint ?M = sint (sb_maximum (horizontalScrollBar s'))"
    by (simp add: hbar')
  have "sb_value (setMaximum ?M (setValue (narrow ?X) ?hb)) = sb_value (setValue (narrow ?X) ?hb)"
    unfolding setMaximum_def using assms(8,10)
    by (intro setRange_value_kept) (simp_all add: v1 nX sint_smin M)
  then have val: "sint (sb_value (horizontalScrollBar s')) = t"
    by (simp add: hbar' v1 nX)
  have mid: "\<bar>(t + (sint ?w sdiv 2) * sint spl)
          - (sint ?v + (sint ?w * sint q0) sdiv 2)\<bar> \<le> sint spl"
    using midpoint_bound [OF assms(2) assms(6), of "sint q0"] by (simp add: assms(7))
  have centre: "\<bar>(t + (sint ?w * sint spl) sdiv 2)
          - (sint ?v + (sint ?w * sint q0) sdiv 2)\<bar> \<le> 1"
    using centre_bound [of "sint ?w * sint q0" "sint ?w * sint spl"] by (simp add: assms(7))
  from hbar' val mid centre show ?thesis
    by blast
qed



lemma samplesPerLine_zoom_out: "samplesPerLine zoom_out = Inr 128"
  by (simp add: zoom_out_def long_view_def scenario_def samplesPerLine_def checked_div_def word_eval)

lemma nonzero_128: "(128 :: off_t) \<noteq> 0" "(128 :: off_t) \<noteq> - 1"
  by simp_all

lemma zoom_out_fields:
  "horizontalScrollBar zoom_out =
     \<lparr>sb_minimum = 0, sb_maximum = 99424, sb_value = 0, singleStep = 640, pageStep = 6400\<rparr>"
  "verticalScrollBar zoom_out = default_scrollbar"
  "widget_width zoom_out = 10" "source_count zoom_out = 100000"
  "viewport_height zoom_out = 100" "plotsHeight zoom_out = 0"
  "viewRange zoom_out = \<lparr>minimum = 0, maximum = 640\<rparr>"
  "selectedSamples zoom_out = \<lparr>minimum = 0, maximum = 0\<rparr>"
  "cursors zoom_out = \<lparr>selection = \<lparr>minimum = 2, maximum = 5\<rparr>, segmentCount = 1\<rparr>"
  "update_requests zoom_out = 0"
  by (simp_all add: zoom_out_def long_view_def scenario_def plotsHeight_def)


lemma updateView_zoom_out:
  "updateView True zoom_out =
     Some (Inr (zoom_out\<lparr>viewRange := \<lparr>minimum = 0, maximum = 1280\<rparr>,
            horizontalScrollBar :=
              \<lparr>sb_minimum = 0, sb_maximum = 98848, sb_value = 0, singleStep = 640, pageStep = 6400\<rparr>,
            verticalScrollBar :=
              \<lparr>sb_minimum = 0, sb_maximum = 0, sb_value = 0, singleStep = 1, pageStep = 10\<rparr>,
            cursors := \<lparr>selection = \<lparr>minimum = 0, maximum = 0\<rparr>, segmentCount = 1\<rparr>,
            update_requests := 1\<rparr>))"
  unfolding updateView_Inr [OF samplesPerLine_zoom_out nonzero_128]
  by (simp add: zoom_out_fields scrollbar_eval word_eval setSelection_def default_scrollbar_def)

text \<open>
  C3, as stated, fails when the scroll bar bounds the recentred position. Zooming out
  from 64 to 128 samples per column at scroll position 0, the recentred position is
  \<open>0 + (640 - 1280) / 2 = - 320\<close>; \<^verbatim>\<open>setValue\<close> bounds it to 0. The old centre sample
  is 320 and the sample at the pixel midpoint is now 640, further than 128 away.
\<close>


theorem updateView_recenter_counterexample:
  "samplesPerLine zoom_out = Inr 128
   \<and> updateView True zoom_out \<noteq> None
   \<and> \<not> isl (the (updateView True zoom_out))
   \<and> sint (sb_value (horizontalScrollBar zoom_out))
        + (sint (range_length (viewRange zoom_out)) - sint (widget_width zoom_out) * 128) sdiv 2
       = - 320
   \<and> sint (sb_value (horizontalScrollBar (projr (the (updateView True zoom_out))))) = 0
   \<and> sint (sb_value (horizontalScrollBar zoom_out))
        + sint (range_length (viewRange zoom_out)) sdiv 2 = 320
   \<and> sint (sb_value (horizontalScrollBar (projr (the (updateView True zoom_out)))))
        + (sint (widget_width zoom_out) sdiv 2) * 128 = 640
   \<and> \<not> \<bar>(sint (sb_value (horizontalScrollBar (projr (the (updateView True zoom_out)))))
            + (sint (widget_width zoom_out) sdiv 2) * 128)
          - (sint (sb_value (horizontalScrollBar zoom_out))
            + sint (range_length (viewRange zoom_out)) sdiv 2)\<bar> \<le> 128"
  unfolding updateView_zoom_out
  by (simp add: samplesPerLine_zoom_out zoom_out_fields range_length_def signed_divide_int_def)

lemma samplesPerLine_zoom_in: "samplesPerLine zoom_in = Inr 32"
  by (simp add: zoom_in_def long_view_def scenario_def samplesPerLine_def checked_div_def word_eval)

lemma nonzero_32: "(32 :: off_t) \<noteq> 0" "(32 :: off_t) \<noteq> - 1"
  by simp_all

lemma zoom_in_fields:
  "horizontalScrollBar zoom_in =
     \<lparr>sb_minimum = 0, sb_maximum = 99424, sb_value = 1000, singleStep = 640, pageStep = 6400\<rparr>"
  "verticalScrollBar zoom_in = default_scrollbar"
  "widget_width zoom_in = 10" "source_count zoom_in = 100000"
  "viewport_height zoom_in = 100" "plotsHeight zoom_in = 0"
  "viewRange zoom_in = \<lparr>minimum = 1000, maximum = 1640\<rparr>"
  "selectedSamples zoom_in = \<lparr>minimum = 0, maximum = 0\<rparr>"
  "cursors zoom_in = \<lparr>selection = \<lparr>minimum = 2, maximum = 5\<rparr>, segmentCount = 1\<rparr>"
  "update_requests zoom_in = 0"
  by (simp_all add: zoom_in_def long_view_def scenario_def plotsHeight_def)


lemma updateView_zoom_in:
  "updateView True zoom_in =
     Some (Inr (zoom_in\<lparr>viewRange := \<lparr>minimum = 1160, maximum = 1480\<rparr>,
            horizontalScrollBar :=
              \<lparr>sb_minimum = 0, sb_maximum = 99712, sb_value = 1160, singleStep = 640, pageStep = 6400\<rparr>,
            verticalScrollBar :=
              \<lparr>sb_minimum = 0, sb_maximum = 0, sb_value = 0, singleStep = 1, pageStep = 10\<rparr>,
            cursors := \<lparr>selection = \<lparr>minimum = - 36, maximum = - 36\<rparr>, segmentCount = 1\<rparr>,
            update_requests := 2\<rparr>))"
  unfolding updateView_Inr [OF samplesPerLine_zoom_in nonzero_32]
  by (simp add: zoom_in_fields scrollbar_eval word_eval setSelection_def default_scrollbar_def)

theorem updateView_recenter_witness:
  "samplesPerLine zoom_in = Inr 32 \<and> 1 \<le> sint (32 :: off_t)
   \<and> updateView True zoom_in \<noteq> None
   \<and> \<not> isl (the (updateView True zoom_in))
   \<and> viewRange zoom_in = \<lparr>minimum = widen 1000, maximum = widen 1000 + widen 10 * widen 64\<rparr>
   \<and> sint (sb_minimum (horizontalScrollBar zoom_in)) \<le> 1160
   \<and> 1160 \<le> sint (sb_maximum (horizontalScrollBar zoom_in))
   \<and> 1160 \<le> sint (sb_maximum (horizontalScrollBar (projr (the (updateView True zoom_in)))))
   \<and> sint (sb_value (horizontalScrollBar (projr (the (updateView True zoom_in))))) = 1160
   \<and> \<bar>(1160 + (10 sdiv 2) * 32) - (1000 + (10 * 64) sdiv 2)\<bar> \<le> (32 :: int)"
proof -
  let ?s' = "projr (the (updateView True zoom_in))"
  have upd: "updateView True zoom_in = Some (Inr ?s')"
    by (simp add: updateView_zoom_in)
  have pos: "1 \<le> sint (32 :: off_t)" "1 \<le> sint (64 :: cint)" "0 \<le> sint (widget_width zoom_in)"
    by (simp_all add: zoom_in_fields)
  have old: "viewRange zoom_in =
      \<lparr>minimum = widen (sb_value (horizontalScrollBar zoom_in)),
       maximum = widen (sb_value (horizontalScrollBar zoom_in))
                   + widen (widget_width zoom_in) * widen 64\<rparr>"
    by (simp add: zoom_in_fields widen_def)
  have t: "(1160 :: int) = sint (sb_value (horizontalScrollBar zoom_in))
      + (sint (widget_width zoom_in) * sint (64 :: cint)
          - sint (widget_width zoom_in) * sint (32 :: off_t)) sdiv 2"
    by (simp add: zoom_in_fields signed_divide_int_def)
  have lo: "sint (sb_minimum (horizontalScrollBar zoom_in)) \<le> 1160"
    and hi: "1160 \<le> sint (sb_maximum (horizontalScrollBar zoom_in))"
    by (simp_all add: zoom_in_fields)
  have hi': "1160 \<le> sint (sb_maximum (horizontalScrollBar ?s'))"
    by (simp add: updateView_zoom_in)
  from updateView_recenter [OF samplesPerLine_zoom_in pos(1) upd old pos(2,3) t lo hi hi']
  have "sint (sb_value (horizontalScrollBar ?s')) = 1160"
    and "\<bar>(1160 + (sint (widget_width zoom_in) sdiv 2) * sint (32 :: off_t))
          - (sint (sb_value (horizontalScrollBar zoom_in))
             + (sint (widget_width zoom_in) * sint (64 :: cint)) sdiv 2)\<bar> \<le> sint (32 :: off_t)"
    by blast+
  then have "sint (sb_value (horizontalScrollBar ?s')) = 1160"
    and "\<bar>(1160 + (10 sdiv 2) * 32) - (1000 + (10 * 64) sdiv 2)\<bar> \<le> (32 :: int)"
    by (simp_all add: zoom_in_fields)
  moreover have "updateView True zoom_in \<noteq> None"
    and "\<not> isl (the (updateView True zoom_in))"
    by (simp_all add: updateView_zoom_in)
  moreover have "viewRange zoom_in =
      \<lparr>minimum = widen 1000, maximum = widen 1000 + widen 10 * widen 64\<rparr>"
    by (simp add: zoom_in_fields widen_def)
  ultimately show ?thesis
    using samplesPerLine_zoom_in pos(1) lo hi hi' by blast
qed

section \<open>Pointer events\<close>













end
